theory Spec2Isabelle
  imports Main
begin

section \<open>Strings as the proxy parser uses them\<close>

text \<open>
  Source strings are modelled as \<^typ>\<open>string\<close> (lists of characters, ASCII).  The three
  string methods the parser calls are written out: \<open>trim\<close>, \<open>split\<close> and indexing into
  the array \<open>split\<close> returns, where an index past the end reads \<open>undefined\<close> (here
  \<open>None\<close>).
\<close>

definition isWhiteSpace :: "char \<Rightarrow> bool" where
  "isWhiteSpace c \<longleftrightarrow> c \<in> set [CHR '' '', CHR 0x09, CHR 0x0A, CHR 0x0B, CHR 0x0C, CHR 0x0D]"

definition js_trim :: "string \<Rightarrow> string" where
  "js_trim s = rev (dropWhile isWhiteSpace (rev (dropWhile isWhiteSpace s)))"

text \<open>\<open>s.split(c)\<close>: never empty, \<open>"".split(c)\<close> is \<open>[""]\<close>, a trailing separator
  gives a trailing empty field.\<close>

fun js_split :: "char \<Rightarrow> string \<Rightarrow> string list" where
  "js_split c [] = [[]]"
| "js_split c (x # xs) =
     (if x = c then [] # js_split c xs
      else (case js_split c xs of [] \<Rightarrow> [[x]] | p # ps \<Rightarrow> (x # p) # ps))"

definition at :: "'a list \<Rightarrow> nat \<Rightarrow> 'a option" where
  "at xs i = (if i < length xs then Some (xs ! i) else None)"

section \<open>utils/proxy-parser.js\<close>

record parsedProxy =
  host :: string
  port :: string
  proxy_username :: string
  password :: string
  country :: string
  format :: string
  original :: string

text \<open>
  \<open>parseProxy\<close> throws \<open>Error(`Invalid proxy format: ${proxyString}`)\<close> when the trimmed
  line has fewer than three fields; the thrown message is the \<open>Inl\<close> value.  \<open>parts[3]\<close>
  may be \<open>undefined\<close>; both \<open>undefined\<close> and the empty string are falsy in
  \<open>parts[3] && parts[3].includes(';')\<close> and in \<open>parts[3] || ''\<close>.  The port stays the text
  of the second field: the source does not convert it.
\<close>

definition isSoaxFormat :: "string list \<Rightarrow> bool" where
  "isSoaxFormat parts =
     (case at parts 3 of None \<Rightarrow> False | Some f \<Rightarrow> f \<noteq> [] \<and> CHR '';'' \<in> set f)"

definition soaxCountry :: "string \<Rightarrow> string" where
  "soaxCountry f =
     (case at (filter (\<lambda>p. p \<noteq> []) (js_split CHR '';'' f)) 1 of
        None \<Rightarrow> ''unknown''
      | Some t \<Rightarrow> t)"

definition parseProxy :: "string \<Rightarrow> string + parsedProxy" where
  "parseProxy proxyString =
     (let parts = js_split CHR '':'' (js_trim proxyString) in
      if length parts < 3 then Inl (''Invalid proxy format: '' @ proxyString)
      else
        if isSoaxFormat parts then
          Inr \<lparr> host = parts ! 0, port = parts ! 1, proxy_username = parts ! 2,
                password = '''',
                country = (case at parts 3 of None \<Rightarrow> ''unknown'' | Some f \<Rightarrow> soaxCountry f),
                format = ''soax'', original = proxyString \<rparr>
        else
          Inr \<lparr> host = parts ! 0, port = parts ! 1, proxy_username = parts ! 2,
                password = (case at parts 3 of None \<Rightarrow> '''' | Some f \<Rightarrow> f),
                country = ''unknown'',
                format = ''standard'', original = proxyString \<rparr>)"

section \<open>core/session-manager.js\<close>

text \<open>
  An account record of \<open>accounts.json\<close>.  A field that is absent reads \<open>undefined\<close>
  (\<open>None\<close>); the credential and the form payload are passed through to the browser and
  play no part in what is modelled here.
\<close>

record account =
  username :: "string option"
  email :: "string option"
  consulate :: "string option"

text \<open>The object a session resolves to; \<open>r_status\<close> is one of \<open>'success'\<close>, \<open>'failed'\<close>,
  \<open>'error'\<close>, \<open>'timeout'\<close>, and the fields a shape does not set are \<open>undefined\<close>.\<close>

record result =
  r_status :: string
  r_account :: "string option"
  r_email :: "string option"
  r_consulate :: "string option"
  r_confirmation :: "string option"
  r_date :: "string option"
  r_time :: "string option"
  r_proxyCountry :: "string option"
  r_reason :: "string option"
  r_error :: "string option"
  r_duration :: "string option"

text \<open>
  What the browser shows while \<open>bookAppointment\<close> runs: whether \<open>page.waitForSelector\<close>
  rejects (with which message), which of the slot selectors match an element, how many
  time slots there are, whether a confirm button exists, and the text of the elements of
  the confirmation page by selector.
\<close>

record page =
  waitForSelector :: "string option"
  matching :: "string list"
  timeSlots :: nat
  confirmButton :: bool
  confirmationTexts :: "(string \<times> string) list"

record booking =
  b_success :: bool
  b_reason :: "string option"
  b_number :: "string option"
  b_date :: "string option"
  b_time :: "string option"

definition selectors :: "string list" where
  "selectors =
    [''.available-date:not(.disabled)'',
     ''.calendar-day.available'',
     ''td.available:not(.disabled)'',
     ''a.available'',
     ''[data-available=\"true\"]'',
     ''.slot-available'',
     ''button.available:not(:disabled)'']"

definition slotFound :: "page \<Rightarrow> string option" where
  "slotFound pg = find (\<lambda>selector. selector \<in> set (matching pg)) selectors"

fun getText :: "page \<Rightarrow> string list \<Rightarrow> string" where
  "getText pg [] = ''N/A''"
| "getText pg (selector # rest) =
     (case map_of (confirmationTexts pg) selector of
        Some t \<Rightarrow> t
      | None \<Rightarrow> getText pg rest)"

text \<open>The \<open>try\<close> block of \<open>bookAppointment\<close>: \<open>Inl\<close> is a thrown error's message.\<close>

definition bookAppointment_try :: "page \<Rightarrow> string + booking" where
  "bookAppointment_try pg =
     (case waitForSelector pg of
        Some m \<Rightarrow> Inl m
      | None \<Rightarrow>
         (case slotFound pg of
            None \<Rightarrow> Inr \<lparr> b_success = False, b_reason = Some ''No slots available'',
                          b_number = None, b_date = None, b_time = None \<rparr>
          | Some selector \<Rightarrow>
              if \<not> confirmButton pg then Inl ''Confirm button not found''
              else Inr \<lparr> b_success = True, b_reason = None,
                         b_number = Some (getText pg [''.conf-number'', ''.confirmation-number'',
                                                      ''#confirmationNumber'', ''[data-confirmation]'']),
                         b_date = Some (getText pg [''.conf-date'', ''.appointment-date'',
                                                    ''.data'', ''[data-date]'']),
                         b_time = Some (getText pg [''.conf-time'', ''.appointment-time'',
                                                    ''.hora'', ''[data-time]'']) \<rparr>))"

text \<open>The \<open>catch\<close> of \<open>bookAppointment\<close> returns \<open>{ success: false, reason: error.message }\<close>.\<close>

definition bookAppointment :: "page \<Rightarrow> booking" where
  "bookAppointment pg =
     (case bookAppointment_try pg of
        Inl m \<Rightarrow> \<lparr> b_success = False, b_reason = Some m,
                    b_number = None, b_date = None, b_time = None \<rparr>
      | Inr b \<Rightarrow> b)"

text \<open>
  What the outside world does to one session: \<open>preBooking\<close> is the message of the first
  error thrown by \<open>initBrowser\<close>, \<open>login\<close>, \<open>fillQuestionario\<close>, \<open>fillFormulario\<close> or
  \<open>searchAppointments\<close> (\<open>None\<close> when all five return); \<open>duration\<close> is the formatted
  elapsed time; \<open>settles\<close> says whether \<open>execute()\<close> settles before the batch's timeout
  promise does.
\<close>

record session_env =
  preBooking :: "string option"
  pg :: page
  duration :: string
  settles :: bool

record sessionManager =
  sm_account :: account
  sm_proxy :: "parsedProxy option"

text \<open>The constructor: \<open>this.proxy = proxy ? parseProxy(proxy) : null\<close>, which throws what
  \<open>parseProxy\<close> throws.\<close>

definition SessionManager :: "account \<Rightarrow> string option \<Rightarrow> string + sessionManager" where
  "SessionManager acc proxy =
     (case proxy of
        None \<Rightarrow> Inr \<lparr> sm_account = acc, sm_proxy = None \<rparr>
      | Some line \<Rightarrow>
          if line = [] then Inr \<lparr> sm_account = acc, sm_proxy = None \<rparr>
          else (case parseProxy line of
                  Inl m \<Rightarrow> Inl m
                | Inr p \<Rightarrow> Inr \<lparr> sm_account = acc, sm_proxy = Some p \<rparr>))"

definition proxyCountryOf :: "parsedProxy option \<Rightarrow> string" where
  "proxyCountryOf p =
     (case p of None \<Rightarrow> ''none'' | Some q \<Rightarrow> if country q = [] then ''none'' else country q)"

definition execute :: "sessionManager \<Rightarrow> session_env \<Rightarrow> result" where
  "execute sm e =
     (case preBooking e of
        Some m \<Rightarrow>
          \<lparr> r_status = ''error'', r_account = username (sm_account sm),
            r_email = email (sm_account sm), r_consulate = None, r_confirmation = None,
            r_date = None, r_time = None, r_proxyCountry = None, r_reason = None,
            r_error = Some m, r_duration = Some (duration e) \<rparr>
      | None \<Rightarrow>
          (let bookingResult = bookAppointment (pg e) in
           if b_success bookingResult then
             \<lparr> r_status = ''success'', r_account = username (sm_account sm),
               r_email = email (sm_account sm), r_consulate = consulate (sm_account sm),
               r_confirmation = b_number bookingResult,
               r_date = b_date bookingResult, r_time = b_time bookingResult,
               r_proxyCountry = Some (proxyCountryOf (sm_proxy sm)), r_reason = None,
               r_error = None, r_duration = Some (duration e) \<rparr>
           else
             \<lparr> r_status = ''failed'', r_account = username (sm_account sm),
               r_email = email (sm_account sm), r_consulate = None, r_confirmation = None,
               r_date = None, r_time = None, r_proxyCountry = None,
               r_reason = b_reason bookingResult,
               r_error = None, r_duration = Some (duration e) \<rparr>))"

section \<open>core/orchestrator.js\<close>

text \<open>
  The tunables of \<open>config.js\<close> that the orchestrator and \<open>main\<close> read.  The numbers come
  from \<open>parseInt\<close> and are integers here (a setting that does not parse gives \<open>NaN\<close>,
  which is not modelled).  The session timeout enters only through \<open>settles\<close> above.
\<close>

record config =
  capsolverApiKey :: string
  telegramBotToken :: string
  telegramChatId :: string
  parallelSessions :: int
  retryAttempts :: int

record stats =
  total_count :: int
  success :: int
  failed :: int
  pending :: int
  errors :: int

text \<open>The messages handed to the Telegram notifier, in the order of the calls.\<close>

datatype notification =
    SessionStarted int int "string option"
  | BatchStatus stats
  | BookingSuccess result
  | ErrorNotice result

text \<open>
  An element of the array in \<open>accounts.json\<close> is an account object or \<open>null\<close> (\<open>None\<close>):
  \<open>loadAccounts\<close> checks only that the file holds a non-empty array.  Reading a property
  of \<open>null\<close> throws a \<open>TypeError\<close>, whose message names the property.
\<close>

definition nullRead :: "string \<Rightarrow> string" where
  "nullRead property =
     ''Cannot read properties of null (reading '' @ [CHR 0x27] @ property @ [CHR 0x27] @ '')''"

record orchestrator =
  accounts :: "account option list"
  proxies :: "string list"
  cfg :: config
  stats :: stats
  results :: "result list"
  sent :: "notification list"

text \<open>\<open>createTelegramNotifier\<close> returns \<open>null\<close> unless both credentials are set.\<close>

definition telegram :: "config \<Rightarrow> bool" where
  "telegram c \<longleftrightarrow> telegramBotToken c \<noteq> [] \<and> telegramChatId c \<noteq> []"

definition Orchestrator :: "account option list \<Rightarrow> string list \<Rightarrow> config \<Rightarrow> orchestrator" where
  "Orchestrator accs prox c =
     \<lparr> accounts = accs, proxies = prox, cfg = c,
       stats = \<lparr> total_count = int (length accs), success = 0, failed = 0,
                 pending = int (length accs), errors = 0 \<rparr>,
       results = [], sent = [] \<rparr>"

text \<open>
  \<open>processSessionResult\<close>: the counters change before the first \<open>await\<close>, so the call
  (which \<open>processBatch\<close> does not await) updates them at once.  A notification that
  fails is caught and logged there.
\<close>

definition processSessionResult :: "orchestrator \<Rightarrow> result \<Rightarrow> orchestrator" where
  "processSessionResult orc r =
     (let o1 = orc \<lparr> results := results orc @ [r],
                     stats := (stats orc) \<lparr> pending := pending (stats orc) - 1 \<rparr> \<rparr> in
      if r_status r = ''success'' then
        o1 \<lparr> stats := (stats o1) \<lparr> success := success (stats o1) + 1 \<rparr>,
             sent := sent o1 @ (if telegram (cfg orc) then [BookingSuccess r] else []) \<rparr>
      else if r_status r = ''failed'' then
        o1 \<lparr> stats := (stats o1) \<lparr> failed := failed (stats o1) + 1 \<rparr> \<rparr>
      else
        o1 \<lparr> stats := (stats o1) \<lparr> errors := errors (stats o1) + 1 \<rparr>,
             sent := sent o1 @ (if telegram (cfg orc) \<and> r_error r \<noteq> Some ''No slots available''
                                then [ErrorNotice r] else []) \<rparr>)"

text \<open>
  The remainder operator \<open>%\<close> on integers: the sign follows the dividend, and a zero
  divisor gives \<open>NaN\<close> (\<open>None\<close>).  \<open>proxies[proxyIndex]\<close> with a negative or \<open>NaN\<close>
  index reads \<open>undefined\<close>, which the session treats like \<open>null\<close>.
\<close>

definition js_rem :: "int \<Rightarrow> int \<Rightarrow> int option" where
  "js_rem a n = (if n = 0 then None else Some (sgn a * (\<bar>a\<bar> mod \<bar>n\<bar>)))"

definition proxyIndex :: "config \<Rightarrow> string list \<Rightarrow> nat \<Rightarrow> nat \<Rightarrow> int option" where
  "proxyIndex c prox batchNumber index =
     js_rem (int batchNumber * parallelSessions c + int index) (int (length prox))"

definition assignedProxy :: "config \<Rightarrow> string list \<Rightarrow> nat \<Rightarrow> nat \<Rightarrow> string option" where
  "assignedProxy c prox batchNumber index =
     (if length prox > 0 then
        (case proxyIndex c prox batchNumber index of
           None \<Rightarrow> None
         | Some i \<Rightarrow> if 0 \<le> i then at prox (nat i) else None)
      else None)"

record session =
  s_account :: "account option"
  s_proxy :: "string option"
  s_index :: int

definition sessions :: "config \<Rightarrow> string list \<Rightarrow> account option list \<Rightarrow> nat \<Rightarrow> session list" where
  "sessions c prox accs batchNumber =
     map (\<lambda>(index, acc).
            \<lparr> s_account = acc,
              s_proxy = assignedProxy c prox batchNumber index,
              s_index = (int batchNumber - 1) * parallelSessions c + int index \<rparr>)
         (enumerate 0 accs)"

datatype 'a settled = fulfilled 'a | rejected "string option"

definition errorResult :: "account \<Rightarrow> string \<Rightarrow> result" where
  "errorResult acc m =
     \<lparr> r_status = ''error'', r_account = username acc, r_email = email acc,
       r_consulate = None, r_confirmation = None, r_date = None, r_time = None,
       r_proxyCountry = None, r_reason = None, r_error = Some m, r_duration = None \<rparr>"

definition timeoutResult :: "account \<Rightarrow> result" where
  "timeoutResult acc =
     \<lparr> r_status = ''timeout'', r_account = username acc, r_email = email acc,
       r_consulate = None, r_confirmation = None, r_date = None, r_time = None,
       r_proxyCountry = None, r_reason = None, r_error = Some ''Session timeout'',
       r_duration = None \<rparr>"

text \<open>
  The body of one element of \<open>sessionPromises\<close> once the account has been read: the
  constructor runs inside the \<open>try\<close>, so what it throws is caught and becomes an
  \<open>'error'\<close> result; \<open>Promise.race\<close> gives the result of \<open>execute()\<close> when that settles
  first and \<open>{ timedOut: true }\<close> otherwise.
\<close>

definition attempt :: "session_env \<Rightarrow> account \<Rightarrow> string option \<Rightarrow> result" where
  "attempt e acc proxy =
     (case SessionManager acc proxy of
        Inl m \<Rightarrow> errorResult acc m
      | Inr sm \<Rightarrow> if settles e then execute sm e else timeoutResult acc)"

text \<open>
  One element of \<open>sessionPromises\<close>.  The first statement of the \<open>try\<close> reads
  \<open>account.email\<close>, and so does the first statement of the \<open>catch\<close>: with a \<open>null\<close>
  account the \<open>try\<close> throws, the \<open>catch\<close> throws again, and the promise rejects with
  that \<open>TypeError\<close>.  Nothing else in the \<open>catch\<close> can throw.
\<close>

definition sessionPromise :: "session_env \<Rightarrow> session \<Rightarrow> result settled" where
  "sessionPromise e s =
     (case s_account s of
        None \<Rightarrow> rejected (Some (nullRead ''email''))
      | Some acc \<Rightarrow> fulfilled (attempt e acc (s_proxy s)))"

text \<open>
  What the loop over \<open>Promise.allSettled\<close>'s array passes to \<open>processSessionResult\<close>.
  For a rejected promise the object literal reads \<open>sessions[i].account.username\<close> first,
  outside any \<open>try\<close>: with a \<open>null\<close> account that throws (\<open>Inl\<close>).
\<close>

definition sessionData :: "session \<Rightarrow> result settled \<Rightarrow> string + result" where
  "sessionData s p =
     (case p of
        fulfilled v \<Rightarrow> Inr v
      | rejected reason \<Rightarrow>
          (case s_account s of
             None \<Rightarrow> Inl (nullRead ''username'')
           | Some acc \<Rightarrow>
               Inr (errorResult acc
                      (case reason of
                         None \<Rightarrow> ''Unknown error''
                       | Some m \<Rightarrow> if m = [] then ''Unknown error'' else m))))"

text \<open>
  The world of one run: the environment of the session at each (batch number, index in
  batch), the answer of \<open>testConnection\<close>, and the error, if any, with which the
  notifier rejects the started message and the status message after each batch
  (\<open>sendMessage\<close> rethrows what the HTTP call throws).
\<close>

record run_env =
  sess :: "nat \<Rightarrow> nat \<Rightarrow> session_env"
  tgConnected :: bool
  tgSessionStarted :: "string option"
  tgBatchStatus :: "nat \<Rightarrow> string option"

definition outcomes ::
  "run_env \<Rightarrow> config \<Rightarrow> string list \<Rightarrow> account option list \<Rightarrow> nat \<Rightarrow> (string + result) list" where
  "outcomes w c prox accs batchNumber =
     map (\<lambda>(i, s). sessionData s (sessionPromise (sess w batchNumber i) s))
         (enumerate 0 (sessions c prox accs batchNumber))"

text \<open>
  The \<open>for\<close> loop of \<open>processBatch\<close>: the outcomes are recorded in order, and a throw
  while building one ends the loop with the earlier ones recorded.  The value is the
  error thrown, if any, with the orchestrator as the loop left it.
\<close>

fun recordAll :: "orchestrator \<Rightarrow> (string + result) list \<Rightarrow> string option \<times> orchestrator" where
  "recordAll orc [] = (None, orc)"
| "recordAll orc (Inl m # rest) = (Some m, orc)"
| "recordAll orc (Inr r # rest) = recordAll (processSessionResult orc r) rest"

definition processBatch ::
  "run_env \<Rightarrow> orchestrator \<Rightarrow> account option list \<Rightarrow> nat \<Rightarrow> string option \<times> orchestrator" where
  "processBatch w orc accs batchNumber =
     recordAll orc (outcomes w (cfg orc) (proxies orc) accs batchNumber)"

text \<open>
  The \<open>while\<close> loop of \<open>run\<close>.  The value is the error thrown, if any, with the
  orchestrator as the loop left it (the object keeps what was recorded before a throw);
  \<open>None\<close> is a loop that never ends.  \<open>splice(0, n)\<close> removes nothing when \<open>n \<le> 0\<close>.
\<close>

partial_function (option) run_loop ::
  "run_env \<Rightarrow> orchestrator \<Rightarrow> account option list \<Rightarrow> nat \<Rightarrow> (string option \<times> orchestrator) option" where
  "run_loop w orc accountQueue batchNumber =
     (if length accountQueue > 0 then
        (let batchNumber' = batchNumber + 1;
             batchSize = min (parallelSessions (cfg orc)) (int (length accountQueue));
             batch = take (nat batchSize) accountQueue;
             accountQueue' = drop (nat batchSize) accountQueue;
             thrown = fst (processBatch w orc batch batchNumber');
             o1 = snd (processBatch w orc batch batchNumber')
         in case thrown of
              Some m \<Rightarrow> Some (Some m, o1)
            | None \<Rightarrow>
                if telegram (cfg orc) then
                  (case tgBatchStatus w batchNumber' of
                     Some m \<Rightarrow> Some (Some m, o1)
                   | None \<Rightarrow> run_loop w (o1 \<lparr> sent := sent o1 @ [BatchStatus (stats o1)] \<rparr>)
                                      accountQueue' batchNumber')
                else run_loop w o1 accountQueue' batchNumber')
      else Some (None, orc))"

declare run_loop.simps [code]

definition run :: "run_env \<Rightarrow> orchestrator \<Rightarrow> (string option \<times> orchestrator) option" where
  "run w orc =
     (if telegram (cfg orc) \<and> tgConnected w then
        (case tgSessionStarted w of
           Some m \<Rightarrow> Some (Some m, orc)
         | None \<Rightarrow>
             run_loop w
               (orc \<lparr> sent := sent orc @
                        [SessionStarted (int (length (accounts orc))) (parallelSessions (cfg orc))
                           (case accounts orc of
                              [] \<Rightarrow> None | None # _ \<Rightarrow> None | Some a # _ \<Rightarrow> email a)] \<rparr>)
               (accounts orc) 0)
      else run_loop w orc (accounts orc) 0)"

text \<open>
  \<open>this.accounts.find(a => a.username === r.account)\<close>: the first account with that
  username, \<open>undefined\<close> (\<open>Inr None\<close>) when there is none, and a \<open>TypeError\<close> when the
  search comes to a \<open>null\<close> entry first.
\<close>

fun findAccount :: "string option \<Rightarrow> account option list \<Rightarrow> string + account option" where
  "findAccount n [] = Inr None"
| "findAccount n (None # rest) = Inl (nullRead ''username'')"
| "findAccount n (Some a # rest) = (if username a = n then Inr (Some a) else findAccount n rest)"

text \<open>\<open>.map(r => this.accounts.find(...)).filter(Boolean)\<close>.\<close>

fun lookupAll :: "account option list \<Rightarrow> result list \<Rightarrow> string + account list" where
  "lookupAll accs [] = Inr []"
| "lookupAll accs (r # rs) =
     (case findAccount (r_account r) accs of
        Inl m \<Rightarrow> Inl m
      | Inr found \<Rightarrow>
          (case lookupAll accs rs of
             Inl m \<Rightarrow> Inl m
           | Inr others \<Rightarrow> Inr (case found of None \<Rightarrow> others | Some a \<Rightarrow> a # others)))"

definition failedAccounts :: "orchestrator \<Rightarrow> string + account list" where
  "failedAccounts orc =
     lookupAll (accounts orc)
       (filter (\<lambda>r. r_status r = ''error'' \<or> r_status r = ''timeout'') (results orc))"

text \<open>The three assignments under \<open>// Merge results\<close>.\<close>

definition mergeResults :: "orchestrator \<Rightarrow> orchestrator \<Rightarrow> orchestrator" where
  "mergeResults orc retryOrchestrator =
     orc \<lparr> stats := (stats orc)
       \<lparr> success := success (stats orc) + success (stats retryOrchestrator),
         failed := failed (stats orc) + failed (stats retryOrchestrator),
         errors := errors (stats orc) + errors (stats retryOrchestrator) \<rparr> \<rparr>"

text \<open>
  \<open>retryFailed\<close>.  The second component of the value is the retry orchestrator when one
  was run (a local of the source function), the third the orchestrator itself after the
  merge.
\<close>

definition retryFailed ::
  "run_env \<Rightarrow> orchestrator \<Rightarrow> (string option \<times> orchestrator option \<times> orchestrator) option" where
  "retryFailed w orc =
     (case failedAccounts orc of
        Inl m \<Rightarrow> Some (Some m, None, orc)
      | Inr failed_accounts \<Rightarrow>
          if length failed_accounts = 0 then Some (None, None, orc)
          else
            (case run w (Orchestrator (map Some failed_accounts) (proxies orc) (cfg orc)) of
               None \<Rightarrow> None
             | Some (Some m, retryOrchestrator) \<Rightarrow> Some (Some m, Some retryOrchestrator, orc)
             | Some (None, retryOrchestrator) \<Rightarrow>
                 Some (None, Some retryOrchestrator, mergeResults orc retryOrchestrator)))"

section \<open>config/config.js and index.js\<close>

text \<open>\<open>validate\<close> throws when the list of errors is not empty.\<close>

definition validate :: "config \<Rightarrow> string option" where
  "validate c =
     (let errs = (if capsolverApiKey c = [] then [''CAPSOLVER_API_KEY is required''] else [])
               @ (if parallelSessions c < 1 \<or> parallelSessions c > 50
                  then [''PARALLEL_SESSIONS must be between 1 and 50''] else [])
      in if length errs > 0
         then Some (''Configuration validation failed:'' @ concat (map (\<lambda>e. CHR 0x0A # e) errs))
         else None)"

text \<open>
  \<open>loadAccounts\<close>: \<open>None\<close> stands for a file that is missing or does not hold an array,
  both of which throw, as does the empty array.
\<close>

definition loadAccounts :: "account option list option \<Rightarrow> string + account option list" where
  "loadAccounts file =
     (case file of
        None \<Rightarrow> Inl ''Accounts file not found''
      | Some accs \<Rightarrow>
          if length accs = 0 then Inl ''Accounts file must contain an array of accounts''
          else Inr accs)"

definition startsWith :: "string \<Rightarrow> char \<Rightarrow> bool" where
  "startsWith line c = (case line of [] \<Rightarrow> False | x # _ \<Rightarrow> x = c)"

definition loadProxies :: "string option \<Rightarrow> string list" where
  "loadProxies file =
     (case file of
        None \<Rightarrow> []
      | Some content \<Rightarrow>
          filter (\<lambda>line. js_trim line \<noteq> [] \<and> \<not> startsWith line CHR ''#'')
            (js_split CHR 0x0A content))"

record main_env =
  accountsFile :: "account option list option"
  proxiesFile :: "string option"
  firstRun :: run_env
  retryRun :: run_env

text \<open>
  \<open>main\<close>, up to \<open>process.exit\<close>: the exit code, the error that reached the \<open>catch\<close> of
  \<open>main\<close> (if any), and the orchestrator and the retry orchestrator as they are at that
  moment (when they were created).  Every throw inside the \<open>try\<close> ends in that \<open>catch\<close>,
  which exits with 1.
\<close>

record exit_state =
  exitCode :: int
  fatal :: "string option"
  orchestrator_at_exit :: "orchestrator option"
  retry_at_exit :: "orchestrator option"

definition main :: "config \<Rightarrow> main_env \<Rightarrow> exit_state option" where
  "main c env =
     (case validate c of
        Some m \<Rightarrow> Some \<lparr> exitCode = 1, fatal = Some m,
                         orchestrator_at_exit = None, retry_at_exit = None \<rparr>
      | None \<Rightarrow>
         (case loadAccounts (accountsFile env) of
            Inl m \<Rightarrow> Some \<lparr> exitCode = 1, fatal = Some m,
                            orchestrator_at_exit = None, retry_at_exit = None \<rparr>
          | Inr accs \<Rightarrow>
              if length accs = 0
              then Some \<lparr> exitCode = 1, fatal = Some ''No accounts found in configuration'',
                          orchestrator_at_exit = None, retry_at_exit = None \<rparr>
              else
                (case run (firstRun env) (Orchestrator accs (loadProxies (proxiesFile env)) c) of
                   None \<Rightarrow> None
                 | Some (Some m, orc) \<Rightarrow>
                     Some \<lparr> exitCode = 1, fatal = Some m,
                            orchestrator_at_exit = Some orc, retry_at_exit = None \<rparr>
                 | Some (None, orc) \<Rightarrow>
                     if retryAttempts c > 0 \<and> errors (stats orc) > 0 then
                       (case retryFailed (retryRun env) orc of
                          None \<Rightarrow> None
                        | Some (Some m, r, orc') \<Rightarrow>
                            Some \<lparr> exitCode = 1, fatal = Some m,
                                   orchestrator_at_exit = Some orc', retry_at_exit = r \<rparr>
                        | Some (None, r, orc') \<Rightarrow>
                            Some \<lparr> exitCode = (if success (stats orc') > 0 then 0 else 1),
                                   fatal = None,
                                   orchestrator_at_exit = Some orc', retry_at_exit = r \<rparr>)
                     else
                       Some \<lparr> exitCode = (if success (stats orc) > 0 then 0 else 1),
                              fatal = None,
                              orchestrator_at_exit = Some orc, retry_at_exit = None \<rparr>)))"

section \<open>Notions used in the statements\<close>

text \<open>
  \<open>balanced s\<close> is the equation between the counters; \<open>observed orc\<close> says that it
  holds of the orchestrator's counters and of every batch status it has sent.
  \<open>errored\<close> is the \<open>else\<close> branch of \<open>processSessionResult\<close>.  \<open>advanced orc rs orc'\<close>
  says that \<open>orc'\<close> is \<open>orc\<close> after recording the outcomes \<open>rs\<close>, in that order;
  \<open>owner a r\<close> that \<open>r\<close> is an outcome produced for account \<open>a\<close>, \<open>owns\<close> the same for an
  entry that is not \<open>null\<close>; \<open>recorded\<close> is the part of a batch's outcomes before the
  first throw; \<open>ran orc q err orc'\<close>
  that the loop over the queue \<open>q\<close> left \<open>orc'\<close>, having recorded one outcome for each
  account of a prefix of \<open>q\<close>, the whole of it unless it threw \<open>err\<close>.
\<close>

definition balanced :: "stats \<Rightarrow> bool" where
  "balanced s \<longleftrightarrow> success s + failed s + errors s + pending s = total_count s"

definition observed :: "orchestrator \<Rightarrow> bool" where
  "observed orc \<longleftrightarrow>
     balanced (stats orc) \<and> (\<forall>s. BatchStatus s \<in> set (sent orc) \<longrightarrow> balanced s)"

definition errored :: "result \<Rightarrow> bool" where
  "errored r \<longleftrightarrow> r_status r \<noteq> ''success'' \<and> r_status r \<noteq> ''failed''"

definition advanced :: "orchestrator \<Rightarrow> result list \<Rightarrow> orchestrator \<Rightarrow> bool" where
  "advanced orc rs orc' \<longleftrightarrow>
     accounts orc' = accounts orc \<and> proxies orc' = proxies orc \<and> cfg orc' = cfg orc \<and>
     results orc' = results orc @ rs \<and>
     total_count (stats orc') = total_count (stats orc) \<and>
     pending (stats orc') = pending (stats orc) - int (length rs) \<and>
     success (stats orc') = success (stats orc) + int (length (filter (\<lambda>r. r_status r = ''success'') rs)) \<and>
     failed (stats orc') = failed (stats orc) + int (length (filter (\<lambda>r. r_status r = ''failed'') rs)) \<and>
     errors (stats orc') = errors (stats orc) + int (length (filter errored rs)) \<and>
     (observed orc \<longrightarrow> observed orc')"

definition owner :: "account \<Rightarrow> result \<Rightarrow> bool" where
  "owner a r \<longleftrightarrow> r_account r = username a \<and> r_email r = email a \<and>
     r_status r \<in> {''success'', ''failed'', ''error'', ''timeout''}"

definition owns :: "account option \<Rightarrow> result \<Rightarrow> bool" where
  "owns entry r \<longleftrightarrow> (case entry of None \<Rightarrow> False | Some a \<Rightarrow> owner a r)"

fun recorded :: "(string + result) list \<Rightarrow> result list" where
  "recorded [] = []"
| "recorded (Inl m # rest) = []"
| "recorded (Inr r # rest) = r # recorded rest"

definition ran :: "orchestrator \<Rightarrow> account option list \<Rightarrow> string option \<Rightarrow> orchestrator \<Rightarrow> bool" where
  "ran orc q err orc' \<longleftrightarrow>
     (\<exists>rs. advanced orc rs orc' \<and> length rs \<le> length q \<and>
           list_all2 owns (take (length rs) q) rs \<and>
           (err = None \<longrightarrow> length rs = length q) \<and>
           (\<not> telegram (cfg orc) \<and> None \<notin> set q \<longrightarrow> err = None))"

section \<open>Properties of the proxy parser\<close>

lemma js_split_nonempty: "js_split c s \<noteq> []"
  by (induction s) (auto split: list.splits)

lemma length_js_split: "length (js_split c s) = Suc (length (filter (\<lambda>x. x = c) s))"
proof (induction s)
  case Nil
  show ?case by simp
next
  case (Cons x xs)
  then show ?case
    by (cases "js_split c xs") auto
qed

lemma colons_dropWhile:
  "length (filter (\<lambda>x. x = CHR '':'') (dropWhile isWhiteSpace s))
   = length (filter (\<lambda>x. x = CHR '':'') s)"
  by (induction s) (auto simp: isWhiteSpace_def)

lemma colons_rev:
  "length (filter (\<lambda>x. x = CHR '':'') (rev s)) = length (filter (\<lambda>x. x = CHR '':'') s)"
  by (simp only: rev_filter [symmetric] length_rev)

lemma colons_js_trim:
  "length (filter (\<lambda>x. x = CHR '':'') (js_trim s)) = length (filter (\<lambda>x. x = CHR '':'') s)"
  unfolding js_trim_def by (simp only: colons_rev colons_dropWhile)

lemma fields_js_trim:
  "length (js_split CHR '':'' (js_trim s)) = length (js_split CHR '':'' s)"
  by (simp only: length_js_split colons_js_trim)

lemma second_token:
  "(case at xs (Suc 0) of None \<Rightarrow> u | Some t \<Rightarrow> t) = (case xs of t0 # t1 # rest \<Rightarrow> t1 | _ \<Rightarrow> u)"
  by (cases xs; cases "tl xs") (simp_all add: at_def)

text \<open>
  C7 (as amended).  A line of at least three colon-delimited fields (after trimming)
  parses to host, port and username from the first three fields.  If there is a fourth
  field and it contains a semicolon the layout is SOAX-style: the password is empty and
  the region is the second of the non-empty semicolon-separated tokens of that field,
  \<open>unknown\<close> when there are fewer than two.  Otherwise the layout is standard: the password
  is the fourth field (empty when there is none) and the region is \<open>unknown\<close>.  In
  particular \<open>host:9000:authtoken:wifi;al;\<close> gives host \<open>host\<close>, port \<open>9000\<close>, username
  \<open>authtoken\<close>, an empty password and region \<open>al\<close>, and \<open>host:80:user:pass\<close> gives host
  \<open>host\<close>, port \<open>80\<close>, username \<open>user\<close>, password \<open>pass\<close> and region \<open>unknown\<close>.
\<close>

theorem parseProxy_layouts:
  "(3 \<le> length (js_split CHR '':'' (js_trim line)) \<longrightarrow>
      (\<exists>p. parseProxy line = Inr p \<and>
           host p = js_split CHR '':'' (js_trim line) ! 0 \<and>
           port p = js_split CHR '':'' (js_trim line) ! 1 \<and>
           proxy_username p = js_split CHR '':'' (js_trim line) ! 2 \<and>
           original p = line \<and>
           (if 4 \<le> length (js_split CHR '':'' (js_trim line)) \<and>
               CHR '';'' \<in> set (js_split CHR '':'' (js_trim line) ! 3)
            then format p = ''soax'' \<and> password p = '''' \<and>
                 country p =
                   (case filter (\<lambda>t. t \<noteq> [])
                           (js_split CHR '';'' (js_split CHR '':'' (js_trim line) ! 3)) of
                      t0 # t1 # rest \<Rightarrow> t1
                    | _ \<Rightarrow> ''unknown'')
            else format p = ''standard'' \<and>
                 password p = (if 4 \<le> length (js_split CHR '':'' (js_trim line))
                               then js_split CHR '':'' (js_trim line) ! 3 else '''') \<and>
                 country p = ''unknown'')))
   \<and> parseProxy ''host:9000:authtoken:wifi;al;'' =
     Inr \<lparr> host = ''host'', port = ''9000'', proxy_username = ''authtoken'', password = '''',
           country = ''al'', format = ''soax'', original = ''host:9000:authtoken:wifi;al;'' \<rparr>
   \<and> parseProxy ''host:80:user:pass'' =
     Inr \<lparr> host = ''host'', port = ''80'', proxy_username = ''user'', password = ''pass'',
           country = ''unknown'', format = ''standard'', original = ''host:80:user:pass'' \<rparr>"
proof -
  define fields where "fields = js_split CHR '':'' (js_trim line)"
  have general: "\<exists>p. parseProxy line = Inr p \<and>
           host p = fields ! 0 \<and> port p = fields ! 1 \<and> proxy_username p = fields ! 2 \<and>
           original p = line \<and>
           (if 4 \<le> length fields \<and> CHR '';'' \<in> set (fields ! 3)
            then format p = ''soax'' \<and> password p = '''' \<and>
                 country p =
                   (case filter (\<lambda>t. t \<noteq> []) (js_split CHR '';'' (fields ! 3)) of
                      t0 # t1 # rest \<Rightarrow> t1
                    | _ \<Rightarrow> ''unknown'')
            else format p = ''standard'' \<and>
                 password p = (if 4 \<le> length fields then fields ! 3 else '''') \<and>
                 country p = ''unknown'')"
    if three: "3 \<le> length fields"
  proof (cases "4 \<le> length fields")
    case False
    then have "at fields 3 = None" by (simp add: at_def)
    with three False show ?thesis
      by (simp add: parseProxy_def Let_def fields_def [symmetric] isSoaxFormat_def)
  next
    case True
    then have at3: "at fields 3 = Some (fields ! 3)" by (simp add: at_def)
    show ?thesis
    proof (cases "CHR '';'' \<in> set (fields ! 3)")
      case semi: True
      then have "fields ! 3 \<noteq> []" by auto
      with semi at3 have "isSoaxFormat fields" by (simp add: isSoaxFormat_def)
      with three True semi at3 show ?thesis
        by (simp add: parseProxy_def Let_def fields_def [symmetric] soaxCountry_def second_token)
    next
      case nosemi: False
      with at3 have "\<not> isSoaxFormat fields" by (simp add: isSoaxFormat_def)
      with three True nosemi at3 show ?thesis
        by (simp add: parseProxy_def Let_def fields_def [symmetric])
    qed
  qed
  have ex1: "parseProxy ''host:9000:authtoken:wifi;al;'' =
     Inr \<lparr> host = ''host'', port = ''9000'', proxy_username = ''authtoken'', password = '''',
           country = ''al'', format = ''soax'', original = ''host:9000:authtoken:wifi;al;'' \<rparr>"
    by (simp add: parseProxy_def js_trim_def isWhiteSpace_def isSoaxFormat_def soaxCountry_def at_def)
  have ex2: "parseProxy ''host:80:user:pass'' =
     Inr \<lparr> host = ''host'', port = ''80'', proxy_username = ''user'', password = ''pass'',
           country = ''unknown'', format = ''standard'', original = ''host:80:user:pass'' \<rparr>"
    by (simp add: parseProxy_def js_trim_def isWhiteSpace_def isSoaxFormat_def soaxCountry_def at_def)
  from general ex1 ex2 show ?thesis unfolding fields_def by blast
qed

theorem parseProxy_layouts_witness:
  "\<exists>p. parseProxy '' h:1:t:wifi;;al '' = Inr p \<and> host p = ''h'' \<and> port p = ''1'' \<and>
        proxy_username p = ''t'' \<and> format p = ''soax'' \<and> password p = '''' \<and>
        country p = ''al''"
proof -
  have f: "js_split CHR '':'' (js_trim '' h:1:t:wifi;;al '') = [''h'', ''1'', ''t'', ''wifi;;al'']"
    by (simp add: js_trim_def isWhiteSpace_def)
  show ?thesis
    using parseProxy_layouts [of "'' h:1:t:wifi;;al ''"] unfolding f by auto
qed

text \<open>The claim as written fails: in \<open>h:1:t:;al\<close> the semicolon token at index 1 of the
  fourth field is \<open>al\<close>, and the region is \<open>unknown\<close>.\<close>

theorem region_is_not_the_token_at_index_one:
  "js_split CHR '';'' '';al'' ! 1 = ''al''
   \<and> parseProxy ''h:1:t:;al'' =
     Inr \<lparr> host = ''h'', port = ''1'', proxy_username = ''t'', password = '''',
           country = ''unknown'', format = ''soax'', original = ''h:1:t:;al'' \<rparr>"
  by (simp add: parseProxy_def js_trim_def isWhiteSpace_def isSoaxFormat_def soaxCountry_def at_def)

text \<open>
  C8.  Parsing a proxy line fails exactly when the line has fewer than three
  colon-delimited fields; a line of exactly three fields parses as the standard layout
  with an empty password and region \<open>unknown\<close>.
\<close>

theorem parseProxy_fails_iff_fewer_than_three_fields:
  "(isl (parseProxy line) \<longleftrightarrow> length (js_split CHR '':'' line) < 3)
   \<and> (length (js_split CHR '':'' line) = 3 \<longrightarrow>
        (\<exists>p. parseProxy line = Inr p \<and> format p = ''standard'' \<and> password p = ''''
             \<and> country p = ''unknown''))"
  by (simp add: parseProxy_def Let_def fields_js_trim isSoaxFormat_def at_def)

theorem parseProxy_fails_iff_fewer_than_three_fields_witness:
  "isl (parseProxy ''host:80'') \<and> length (js_split CHR '':'' ''host:80:user'') = 3
   \<and> (\<exists>p. parseProxy ''host:80:user'' = Inr p \<and> format p = ''standard'' \<and> password p = ''''
             \<and> country p = ''unknown'')"
  using parseProxy_fails_iff_fewer_than_three_fields [of "''host:80''"]
        parseProxy_fails_iff_fewer_than_three_fields [of "''host:80:user''"]
  by simp

section \<open>Properties of the booking step\<close>

lemma slotFound_None_iff: "slotFound p = None \<longleftrightarrow> set selectors \<inter> set (matching p) = {}"
  unfolding slotFound_def find_None_iff by blast

lemma bookAppointment_no_slot:
  "waitForSelector p = None \<Longrightarrow> slotFound p = None \<Longrightarrow>
   bookAppointment p = \<lparr> b_success = False, b_reason = Some ''No slots available'',
                         b_number = None, b_date = None, b_time = None \<rparr>"
  by (simp add: bookAppointment_def bookAppointment_try_def)

lemma bookAppointment_no_confirm:
  "waitForSelector p = None \<Longrightarrow> slotFound p = Some s \<Longrightarrow> \<not> confirmButton p \<Longrightarrow>
   bookAppointment p = \<lparr> b_success = False, b_reason = Some ''Confirm button not found'',
                         b_number = None, b_date = None, b_time = None \<rparr>"
  by (simp add: bookAppointment_def bookAppointment_try_def)

text \<open>
  When the steps before booking have completed and the wait for the result surface has
  returned: if no selector of the ordered list matches, the outcome has status \<open>failed\<close>
  with reason \<open>No slots available\<close>; if a selector matches and there is no confirm
  button, the outcome also has status \<open>failed\<close>, with reason \<open>Confirm button not found\<close>,
  because \<open>bookAppointment\<close> catches its own error.
\<close>

lemma booking_step_outcomes:
  assumes "preBooking e = None" and "waitForSelector (pg e) = None"
  shows "(set selectors \<inter> set (matching (pg e)) = {} \<longrightarrow>
            r_status (execute sm e) = ''failed'' \<and>
            r_reason (execute sm e) = Some ''No slots available'' \<and>
            r_error (execute sm e) = None)
       \<and> (set selectors \<inter> set (matching (pg e)) \<noteq> {} \<and> \<not> confirmButton (pg e) \<longrightarrow>
            r_status (execute sm e) = ''failed'' \<and>
            r_reason (execute sm e) = Some ''Confirm button not found'' \<and>
            r_error (execute sm e) = None)"
proof (cases "slotFound (pg e)")
  case None
  then have "set selectors \<inter> set (matching (pg e)) = {}"
    by (simp add: slotFound_None_iff)
  moreover have "bookAppointment (pg e) = \<lparr> b_success = False, b_reason = Some ''No slots available'',
                         b_number = None, b_date = None, b_time = None \<rparr>"
    using assms(2) None by (rule bookAppointment_no_slot)
  ultimately show ?thesis
    using assms(1) by (simp add: execute_def)
next
  case (Some s)
  then have ne: "set selectors \<inter> set (matching (pg e)) \<noteq> {}"
    using slotFound_None_iff [of "pg e"] by simp
  show ?thesis
  proof (cases "confirmButton (pg e)")
    case True
    with ne show ?thesis by simp
  next
    case False
    have "bookAppointment (pg e) = \<lparr> b_success = False, b_reason = Some ''Confirm button not found'',
                         b_number = None, b_date = None, b_time = None \<rparr>"
      using assms(2) Some False by (rule bookAppointment_no_confirm)
    then show ?thesis
      using assms(1) ne by (simp add: execute_def)
  qed
qed

text \<open>
  C3.  The code at a results page where the indicator \<open>a.available\<close> matches and there is
  no confirm button: the \<open>try\<close> of \<open>bookAppointment\<close> throws
  \<open>Confirm button not found\<close>, its \<open>catch\<close> returns a failure with that reason, and
  \<open>execute\<close> gives status \<open>failed\<close>; in a whole run with retries configured the outcome
  is counted under \<open>failed\<close>, not under \<open>errors\<close>, and no retry is made.
\<close>

theorem missing_confirm_button_is_failed:
  "slotFound \<lparr> waitForSelector = None, matching = [''a.available''], timeSlots = 0,
               confirmButton = False, confirmationTexts = [] \<rparr> = Some ''a.available''
   \<and> bookAppointment_try \<lparr> waitForSelector = None, matching = [''a.available''], timeSlots = 0,
               confirmButton = False, confirmationTexts = [] \<rparr> = Inl ''Confirm button not found''
   \<and> execute \<lparr> sm_account = \<lparr> username = Some ''u'', email = Some ''u@x'', consulate = None \<rparr>,
               sm_proxy = None \<rparr>
             \<lparr> preBooking = None,
               pg = \<lparr> waitForSelector = None, matching = [''a.available''], timeSlots = 0,
                      confirmButton = False, confirmationTexts = [] \<rparr>,
               duration = ''12s'', settles = True \<rparr>
       = \<lparr> r_status = ''failed'', r_account = Some ''u'', r_email = Some ''u@x'',
           r_consulate = None, r_confirmation = None, r_date = None, r_time = None,
           r_proxyCountry = None, r_reason = Some ''Confirm button not found'',
           r_error = None, r_duration = Some ''12s'' \<rparr>
   \<and> map_option stats (Option.bind
        (main \<lparr> capsolverApiKey = ''key'', telegramBotToken = '''', telegramChatId = '''',
                parallelSessions = 5, retryAttempts = 2 \<rparr>
              \<lparr> accountsFile = Some [Some \<lparr> username = Some ''u'', email = Some ''u@x'',
                                             consulate = None \<rparr>],
                proxiesFile = None,
                firstRun = \<lparr> sess = (\<lambda>b i. \<lparr> preBooking = None,
                                  pg = \<lparr> waitForSelector = None, matching = [''a.available''],
                                         timeSlots = 0, confirmButton = False,
                                         confirmationTexts = [] \<rparr>,
                                  duration = ''12s'', settles = True \<rparr>),
                             tgConnected = False, tgSessionStarted = None,
                             tgBatchStatus = (\<lambda>b. None) \<rparr>,
                retryRun = \<lparr> sess = (\<lambda>b i. \<lparr> preBooking = None,
                                  pg = \<lparr> waitForSelector = None, matching = [''a.available''],
                                         timeSlots = 0, confirmButton = False,
                                         confirmationTexts = [] \<rparr>,
                                  duration = ''12s'', settles = True \<rparr>),
                             tgConnected = False, tgSessionStarted = None,
                             tgBatchStatus = (\<lambda>b. None) \<rparr> \<rparr>)
        orchestrator_at_exit)
       = Some \<lparr> total_count = 1, success = 0, failed = 1, pending = 0, errors = 0 \<rparr>
   \<and> Option.bind
        (main \<lparr> capsolverApiKey = ''key'', telegramBotToken = '''', telegramChatId = '''',
                parallelSessions = 5, retryAttempts = 2 \<rparr>
              \<lparr> accountsFile = Some [Some \<lparr> username = Some ''u'', email = Some ''u@x'',
                                             consulate = None \<rparr>],
                proxiesFile = None,
                firstRun = \<lparr> sess = (\<lambda>b i. \<lparr> preBooking = None,
                                  pg = \<lparr> waitForSelector = None, matching = [''a.available''],
                                         timeSlots = 0, confirmButton = False,
                                         confirmationTexts = [] \<rparr>,
                                  duration = ''12s'', settles = True \<rparr>),
                             tgConnected = False, tgSessionStarted = None,
                             tgBatchStatus = (\<lambda>b. None) \<rparr>,
                retryRun = \<lparr> sess = (\<lambda>b i. \<lparr> preBooking = None,
                                  pg = \<lparr> waitForSelector = None, matching = [''a.available''],
                                         timeSlots = 0, confirmButton = False,
                                         confirmationTexts = [] \<rparr>,
                                  duration = ''12s'', settles = True \<rparr>),
                             tgConnected = False, tgSessionStarted = None,
                             tgBatchStatus = (\<lambda>b. None) \<rparr> \<rparr>)
        retry_at_exit
       = None"
  by code_simp

section \<open>Recording outcomes\<close>

lemma balanced_processSessionResult:
  "balanced (stats orc) \<Longrightarrow> balanced (stats (processSessionResult orc r))"
  by (simp add: balanced_def processSessionResult_def Let_def)

lemma observed_processSessionResult:
  "observed orc \<Longrightarrow> observed (processSessionResult orc r)"
  unfolding observed_def
  by (auto simp: balanced_processSessionResult) (auto simp: processSessionResult_def Let_def split: if_splits)

lemma observed_status:
  "observed orc \<Longrightarrow> observed (orc \<lparr> sent := sent orc @ [BatchStatus (stats orc)] \<rparr>)"
  by (auto simp: observed_def)

lemma observed_started:
  "observed orc \<Longrightarrow> observed (orc \<lparr> sent := sent orc @ [SessionStarted n b e] \<rparr>)"
  by (auto simp: observed_def)

lemma observed_Orchestrator: "observed (Orchestrator accs prox c)"
  by (simp add: observed_def balanced_def Orchestrator_def)

lemma advanced_refl: "advanced orc [] orc"
  by (simp add: advanced_def)

lemma advanced_step: "advanced orc [r] (processSessionResult orc r)"
  unfolding advanced_def
  by (simp add: observed_processSessionResult) (simp add: processSessionResult_def Let_def errored_def)

lemma advanced_trans:
  "advanced a xs b \<Longrightarrow> advanced b ys c \<Longrightarrow> advanced a (xs @ ys) c"
  by (simp add: advanced_def)

lemma advanced_sent:
  "advanced a xs b \<Longrightarrow> advanced a xs (b \<lparr> sent := sent b @ [BatchStatus (stats b)] \<rparr>)"
  by (simp add: advanced_def observed_status)

lemma advanced_foldl: "advanced orc rs (foldl processSessionResult orc rs)"
proof (induction rs arbitrary: orc)
  case Nil
  show ?case by (simp add: advanced_refl)
next
  case (Cons r rs)
  have "advanced orc ([r] @ rs) (foldl processSessionResult (processSessionResult orc r) rs)"
    using advanced_step Cons.IH by (rule advanced_trans)
  then show ?case by simp
qed

lemma recorded_length: "length (recorded xs) \<le> length xs"
  by (induction xs rule: recorded.induct) simp_all

lemma recorded_nth: "i < length (recorded xs) \<Longrightarrow> xs ! i = Inr (recorded xs ! i)"
proof (induction xs arbitrary: i rule: recorded.induct)
  case (3 r rest)
  then show ?case by (cases i) simp_all
qed simp_all

lemma recorded_all: "\<forall>x \<in> set xs. \<not> isl x \<Longrightarrow> length (recorded xs) = length xs"
  by (induction xs rule: recorded.induct) simp_all

lemma recordAll_snd: "snd (recordAll orc xs) = foldl processSessionResult orc (recorded xs)"
  by (induction orc xs rule: recordAll.induct) simp_all

lemma recordAll_fst: "fst (recordAll orc xs) = None \<longleftrightarrow> length (recorded xs) = length xs"
proof (induction orc xs rule: recordAll.induct)
  case (2 orc m rest)
  show ?case by simp
qed simp_all

lemma advanced_processBatch:
  "advanced orc (recorded (outcomes w (cfg orc) (proxies orc) accs bn))
     (snd (processBatch w orc accs bn))"
  unfolding processBatch_def recordAll_snd by (rule advanced_foldl)

lemma results_processBatch:
  "results (snd (processBatch w orc accs bn)) =
     results orc @ recorded (outcomes w (cfg orc) (proxies orc) accs bn)"
  using advanced_processBatch [of orc w accs bn] by (simp add: advanced_def)

lemma errors_processBatch:
  "errors (stats (snd (processBatch w orc accs bn))) =
     errors (stats orc) +
     int (length (filter errored (recorded (outcomes w (cfg orc) (proxies orc) accs bn))))"
  using advanced_processBatch [of orc w accs bn] by (simp add: advanced_def)

section \<open>One batch\<close>

lemma length_sessions: "length (sessions c prox accs bn) = length accs"
  by (simp add: sessions_def)

lemma nth_sessions:
  "i < length accs \<Longrightarrow> sessions c prox accs bn ! i =
     \<lparr> s_account = accs ! i, s_proxy = assignedProxy c prox bn i,
       s_index = (int bn - 1) * parallelSessions c + int i \<rparr>"
  by (simp add: sessions_def nth_enumerate_eq)

lemma length_outcomes: "length (outcomes w c prox accs bn) = length accs"
  by (simp add: outcomes_def length_sessions)

lemma nth_outcomes:
  "i < length accs \<Longrightarrow> outcomes w c prox accs bn ! i =
     sessionData (sessions c prox accs bn ! i)
       (sessionPromise (sess w bn i) (sessions c prox accs bn ! i))"
  by (simp add: outcomes_def length_sessions nth_enumerate_eq)

lemma outcome_cases:
  assumes "i < length accs"
  shows "outcomes w c prox accs bn ! i =
     (case accs ! i of
        None \<Rightarrow> Inl (nullRead ''username'')
      | Some a \<Rightarrow> Inr (attempt (sess w bn i) a (assignedProxy c prox bn i)))"
  using assms
  by (simp add: nth_outcomes nth_sessions sessionData_def sessionPromise_def split: option.split)

lemma owner_execute: "owner (sm_account sm) (execute sm e)"
  by (simp add: owner_def execute_def Let_def split: option.splits)

lemma SessionManager_account: "SessionManager a p = Inr sm \<Longrightarrow> sm_account sm = a"
  by (auto simp: SessionManager_def split: option.splits if_splits sum.splits)

lemma owner_attempt: "owner a (attempt e a p)"
proof (cases "SessionManager a p")
  case (Inl m)
  then show ?thesis by (simp add: attempt_def owner_def errorResult_def)
next
  case (Inr sm)
  then have "sm_account sm = a" by (rule SessionManager_account)
  then have "owner a (execute sm e)" using owner_execute [of sm e] by simp
  with Inr show ?thesis by (simp add: attempt_def owner_def timeoutResult_def)
qed

lemma batch_recorded:
  assumes "i < length (recorded (outcomes w c prox accs bn))"
  shows "i < length accs \<and>
         (\<exists>a. accs ! i = Some a \<and>
              recorded (outcomes w c prox accs bn) ! i
                = attempt (sess w bn i) a (assignedProxy c prox bn i))"
proof -
  have i: "i < length accs"
    using assms recorded_length [of "outcomes w c prox accs bn"] by (simp add: length_outcomes)
  have "outcomes w c prox accs bn ! i = Inr (recorded (outcomes w c prox accs bn) ! i)"
    using assms by (rule recorded_nth)
  then show ?thesis
    using i outcome_cases [OF i, of w c prox bn] by (cases "accs ! i") simp_all
qed

lemma batch_complete:
  assumes "None \<notin> set accs"
  shows "length (recorded (outcomes w c prox accs bn)) = length accs"
proof -
  have "\<forall>x \<in> set (outcomes w c prox accs bn). \<not> isl x"
  proof
    fix x assume "x \<in> set (outcomes w c prox accs bn)"
    then obtain i where i: "i < length accs" "outcomes w c prox accs bn ! i = x"
      by (auto simp: in_set_conv_nth length_outcomes)
    from i(1) assms have "accs ! i \<noteq> None" by (metis nth_mem)
    then show "\<not> isl x"
      using outcome_cases [OF i(1), of w c prox bn] i(2) by (cases "accs ! i") auto
  qed
  then show ?thesis by (simp add: recorded_all length_outcomes)
qed

lemma owns_outcomes:
  "list_all2 owns (take (length (recorded (outcomes w c prox accs bn))) accs)
     (recorded (outcomes w c prox accs bn))"
proof (rule list_all2_all_nthI)
  show "length (take (length (recorded (outcomes w c prox accs bn))) accs)
          = length (recorded (outcomes w c prox accs bn))"
    using recorded_length [of "outcomes w c prox accs bn"] by (simp add: length_outcomes)
next
  fix i assume "i < length (take (length (recorded (outcomes w c prox accs bn))) accs)"
  then have i: "i < length (recorded (outcomes w c prox accs bn))" by simp
  from batch_recorded [OF i] obtain a where
    "accs ! i = Some a"
    "recorded (outcomes w c prox accs bn) ! i = attempt (sess w bn i) a (assignedProxy c prox bn i)"
    by blast
  then show "owns (take (length (recorded (outcomes w c prox accs bn))) accs ! i)
               (recorded (outcomes w c prox accs bn) ! i)"
    using i owner_attempt by (simp add: owns_def)
qed




lemma filter_single:
  assumes "k < length xs" and "P (xs ! k)" and "\<forall>i<length xs. i \<noteq> k \<longrightarrow> \<not> P (xs ! i)"
  shows "length (filter P xs) = 1"
proof -
  have xs: "xs = take k xs @ xs ! k # drop (Suc k) xs"
    using assms(1) by (rule id_take_nth_drop)
  have "\<forall>x \<in> set (take k xs). \<not> P x"
  proof
    fix x assume "x \<in> set (take k xs)"
    then obtain i where "i < length (take k xs)" "take k xs ! i = x"
      by (auto simp: in_set_conv_nth)
    then have "i < k" "i < length xs" "xs ! i = x" using assms(1) by auto
    then show "\<not> P x" using assms(3) by auto
  qed
  then have a: "filter P (take k xs) = []" by (simp add: filter_empty_conv)
  have "\<forall>x \<in> set (drop (Suc k) xs). \<not> P x"
  proof
    fix x assume "x \<in> set (drop (Suc k) xs)"
    then obtain i where i: "i < length (drop (Suc k) xs)" "drop (Suc k) xs ! i = x"
      by (auto simp: in_set_conv_nth)
    then have "Suc k + i < length xs" "xs ! (Suc k + i) = x" by auto
    then show "\<not> P x" using assms(3) by auto
  qed
  then have b: "filter P (drop (Suc k) xs) = []" by (simp add: filter_empty_conv)
  have "length (filter P xs) = length (filter P (take k xs @ xs ! k # drop (Suc k) xs))"
    using xs by simp
  also have "\<dots> = 1" using a b assms(2) by simp
  finally show ?thesis .
qed

text \<open>
  A fault of one task that its own \<open>try/catch\<close> handles leaves the others alone: in a
  batch without \<open>null\<close> entries where the constructor of exactly one task \<open>k\<close> throws and
  every other task returns from \<open>execute\<close> after completing the steps before booking,
  \<open>processBatch\<close> does not throw and records one outcome per task, the one of task \<open>k\<close>
  with status \<open>error\<close> for its account and every other with status \<open>success\<close> or
  \<open>failed\<close>; exactly one outcome is counted as an error.
\<close>

lemma constructor_fault_is_isolated:
  assumes k: "k < length accs"
    and raises: "isl (SessionManager (accs ! k) (assignedProxy (cfg orc) (proxies orc) bn k))"
    and others: "\<forall>i<length accs. i \<noteq> k \<longrightarrow>
                   \<not> isl (SessionManager (accs ! i) (assignedProxy (cfg orc) (proxies orc) bn i)) \<and>
                   settles (sess w bn i) \<and> preBooking (sess w bn i) = None"
  shows "fst (processBatch w orc (map Some accs) bn) = None \<and>
         (\<exists>rs. results (snd (processBatch w orc (map Some accs) bn)) = results orc @ rs \<and>
              length rs = length accs \<and>
              r_status (rs ! k) = ''error'' \<and>
              r_account (rs ! k) = username (accs ! k) \<and>
              (\<forall>i<length accs. i \<noteq> k \<longrightarrow>
                 r_status (rs ! i) = ''success'' \<or> r_status (rs ! i) = ''failed'') \<and>
              length (filter errored rs) = 1 \<and>
              errors (stats (snd (processBatch w orc (map Some accs) bn))) = errors (stats orc) + 1)"
proof -
  define rs where "rs = recorded (outcomes w (cfg orc) (proxies orc) (map Some accs) bn)"
  have nn: "None \<notin> set (map Some accs)" by auto
  have len: "length rs = length accs"
    using batch_complete [OF nn, of w "cfg orc" "proxies orc" bn] by (simp add: rs_def)
  have no_throw: "fst (processBatch w orc (map Some accs) bn) = None"
    using len by (simp add: rs_def processBatch_def recordAll_fst length_outcomes)
  have nth: "rs ! i = attempt (sess w bn i) (accs ! i) (assignedProxy (cfg orc) (proxies orc) bn i)"
    if "i < length accs" for i
  proof -
    from that len have "i < length (recorded (outcomes w (cfg orc) (proxies orc) (map Some accs) bn))"
      by (simp add: rs_def)
    from batch_recorded [OF this] that show ?thesis by (simp add: rs_def)
  qed
  have atk: "r_status (rs ! k) = ''error'' \<and> r_account (rs ! k) = username (accs ! k)"
    using raises nth [OF k]
    by (auto simp: attempt_def errorResult_def isl_def)
  have oth: "r_status (rs ! i) = ''success'' \<or> r_status (rs ! i) = ''failed''"
    if "i < length accs" "i \<noteq> k" for i
  proof -
    from others that have h:
       "\<not> isl (SessionManager (accs ! i) (assignedProxy (cfg orc) (proxies orc) bn i))"
       "settles (sess w bn i)" "preBooking (sess w bn i) = None" by auto
    from h(1) obtain sm where "SessionManager (accs ! i) (assignedProxy (cfg orc) (proxies orc) bn i) = Inr sm"
      by (cases "SessionManager (accs ! i) (assignedProxy (cfg orc) (proxies orc) bn i)") auto
    then have "rs ! i = execute sm (sess w bn i)"
      using nth [OF that(1)] h by (simp add: attempt_def)
    then show ?thesis using h(3) by (simp add: execute_def Let_def)
  qed
  have one: "length (filter errored rs) = 1"
  proof (rule filter_single [of k])
    show "k < length rs" using k len by simp
    show "errored (rs ! k)" using atk by (simp add: errored_def)
    show "\<forall>i<length rs. i \<noteq> k \<longrightarrow> \<not> errored (rs ! i)"
      using oth len by (auto simp: errored_def)
  qed
  have "results (snd (processBatch w orc (map Some accs) bn)) = results orc @ rs"
    by (simp add: rs_def results_processBatch)
  moreover have "errors (stats (snd (processBatch w orc (map Some accs) bn))) = errors (stats orc) + 1"
    using one by (simp add: errors_processBatch rs_def)
  ultimately show ?thesis using no_throw len atk oth one by blast
qed

text \<open>
  C4.  The code at an \<open>accounts.json\<close> whose second entry is \<open>null\<close>: the first account
  books and its outcome is recorded; the promise of the second rejects, the fallback
  that should turn the rejection into an \<open>error\<close> outcome reads
  \<open>sessions[i].account.username\<close> and throws, and the throw leaves \<open>processBatch\<close> and
  \<open>run\<close>: the batch of two records one outcome, none of them an error, and \<open>main\<close> exits
  with 1.
\<close>

theorem null_account_aborts_the_batch:
  "processBatch
      \<lparr> sess = (\<lambda>b i. \<lparr> preBooking = None,
                         pg = \<lparr> waitForSelector = None, matching = [''a.available''],
                                timeSlots = 1, confirmButton = True, confirmationTexts = [] \<rparr>,
                         duration = ''40s'', settles = True \<rparr>),
        tgConnected = False, tgSessionStarted = None, tgBatchStatus = (\<lambda>b. None) \<rparr>
      (Orchestrator [Some \<lparr> username = Some ''a'', email = None, consulate = None \<rparr>, None] []
         \<lparr> capsolverApiKey = ''key'', telegramBotToken = '''', telegramChatId = '''',
           parallelSessions = 2, retryAttempts = 0 \<rparr>)
      [Some \<lparr> username = Some ''a'', email = None, consulate = None \<rparr>, None] 1
    = (Some ''Cannot read properties of null (reading 'username')'',
       \<lparr> accounts = [Some \<lparr> username = Some ''a'', email = None, consulate = None \<rparr>, None],
         proxies = [],
         cfg = \<lparr> capsolverApiKey = ''key'', telegramBotToken = '''', telegramChatId = '''',
                 parallelSessions = 2, retryAttempts = 0 \<rparr>,
         stats = \<lparr> total_count = 2, success = 1, failed = 0, pending = 1, errors = 0 \<rparr>,
         results = [\<lparr> r_status = ''success'', r_account = Some ''a'', r_email = None,
                      r_consulate = None, r_confirmation = Some ''N/A'', r_date = Some ''N/A'',
                      r_time = Some ''N/A'', r_proxyCountry = Some ''none'', r_reason = None,
                      r_error = None, r_duration = Some ''40s'' \<rparr>],
         sent = [] \<rparr>)
   \<and> map_option exitCode
        (main \<lparr> capsolverApiKey = ''key'', telegramBotToken = '''', telegramChatId = '''',
                parallelSessions = 2, retryAttempts = 0 \<rparr>
              \<lparr> accountsFile = Some [Some \<lparr> username = Some ''a'', email = None, consulate = None \<rparr>,
                                     None],
                proxiesFile = None,
                firstRun = \<lparr> sess = (\<lambda>b i. \<lparr> preBooking = None,
                                  pg = \<lparr> waitForSelector = None, matching = [''a.available''],
                                         timeSlots = 1, confirmButton = True,
                                         confirmationTexts = [] \<rparr>,
                                  duration = ''40s'', settles = True \<rparr>),
                             tgConnected = False, tgSessionStarted = None,
                             tgBatchStatus = (\<lambda>b. None) \<rparr>,
                retryRun = \<lparr> sess = (\<lambda>b i. \<lparr> preBooking = None,
                                  pg = \<lparr> waitForSelector = None, matching = [''a.available''],
                                         timeSlots = 1, confirmButton = True,
                                         confirmationTexts = [] \<rparr>,
                                  duration = ''40s'', settles = True \<rparr>),
                             tgConnected = False, tgSessionStarted = None,
                             tgBatchStatus = (\<lambda>b. None) \<rparr> \<rparr>)
       = Some 1"
  by code_simp

section \<open>The run\<close>

lemma run_loop_total:
  assumes "1 \<le> parallelSessions (cfg orc)"
  shows "\<exists>err orc'. run_loop w orc q bn = Some (err, orc') \<and> ran orc q err orc'"
  using assms
proof (induction "length q" arbitrary: orc q bn rule: less_induct)
  case less
  show ?case
  proof (cases "q = []")
    case True
    then have "run_loop w orc q bn = Some (None, orc)"
      by (subst run_loop.simps) simp
    moreover have "ran orc q None orc"
      unfolding ran_def using True advanced_refl [of orc] by (intro exI [of _ "[]"]) simp
    ultimately show ?thesis by blast
  next
    case False
    define n where "n = nat (min (parallelSessions (cfg orc)) (int (length q)))"
    define batch where "batch = take n q"
    define rest where "rest = drop n q"
    define thrown where "thrown = fst (processBatch w orc batch (bn + 1))"
    define o1 where "o1 = snd (processBatch w orc batch (bn + 1))"
    define rs1 where "rs1 = recorded (outcomes w (cfg orc) (proxies orc) batch (bn + 1))"
    have npos: "0 < n" "n \<le> length q"
      using less.prems False by (auto simp: n_def min_def)
    have lrest: "length rest < length q"
      using npos by (simp add: rest_def)
    have lb: "length batch = n" using npos by (simp add: batch_def)
    have adv1: "advanced orc rs1 o1"
      unfolding o1_def rs1_def by (rule advanced_processBatch)
    have lrs1: "length rs1 \<le> n"
      using recorded_length [of "outcomes w (cfg orc) (proxies orc) batch (bn + 1)"]
      by (simp add: rs1_def length_outcomes lb)
    have full1: "thrown = None \<longleftrightarrow> length rs1 = n"
      by (simp add: thrown_def rs1_def processBatch_def recordAll_fst length_outcomes lb)
    have nothrow1: "thrown = None" if "None \<notin> set q"
    proof -
      from that have "None \<notin> set batch" unfolding batch_def by (auto dest: in_set_takeD)
      from batch_complete [OF this, of w "cfg orc" "proxies orc" "bn + 1"] show ?thesis
        by (simp add: full1 rs1_def lb)
    qed
    have own1: "list_all2 owns (take (length rs1) batch) rs1"
      unfolding rs1_def by (rule owns_outcomes)
    have tk1: "take (length rs1) q = take (length rs1) batch"
      using lrs1 by (simp add: batch_def min_absorb1)
    have cfg1: "cfg o1 = cfg orc" using adv1 by (simp add: advanced_def)
    have unfold: "run_loop w orc q bn =
        (case thrown of
           Some m \<Rightarrow> Some (Some m, o1)
         | None \<Rightarrow>
            if telegram (cfg orc) then
              (case tgBatchStatus w (bn + 1) of
                 Some m \<Rightarrow> Some (Some m, o1)
               | None \<Rightarrow> run_loop w (o1 \<lparr> sent := sent o1 @ [BatchStatus (stats o1)] \<rparr>)
                                  rest (bn + 1))
            else run_loop w o1 rest (bn + 1))"
      unfolding thrown_def o1_def batch_def rest_def n_def using False
      by (subst run_loop.simps) (simp add: Let_def split: option.split)
    have stopped: "ran orc q (Some m) o1"
      if "thrown = None \<longrightarrow> telegram (cfg orc)" "thrown \<noteq> None \<longrightarrow> None \<in> set q" for m
    proof -
      have "length rs1 \<le> length q" using lrs1 npos by simp
      moreover have "list_all2 owns (take (length rs1) q) rs1" using own1 tk1 by simp
      moreover have "\<not> telegram (cfg orc) \<and> None \<notin> set q \<longrightarrow> Some m = None"
        using that nothrow1 by auto
      ultimately show ?thesis
        unfolding ran_def using adv1 by (intro exI [of _ rs1]) simp
    qed
    have compose: "ran orc q err orc'"
      if r: "ran o2 rest err orc'" and a2: "advanced orc rs1 o2"
        and c2: "cfg o2 = cfg orc" and full: "length rs1 = n" for o2 err orc'
    proof -
      from r obtain rs2 where rs2: "advanced o2 rs2 orc'" "length rs2 \<le> length rest"
          "list_all2 owns (take (length rs2) rest) rs2"
          "err = None \<longrightarrow> length rs2 = length rest"
          "\<not> telegram (cfg o2) \<and> None \<notin> set rest \<longrightarrow> err = None"
        unfolding ran_def by blast
      have b1: "list_all2 owns batch rs1" using own1 full lb by simp
      have "advanced orc (rs1 @ rs2) orc'" using a2 rs2(1) by (rule advanced_trans)
      moreover have "length (rs1 @ rs2) \<le> length q"
        using rs2(2) full npos by (simp add: rest_def)
      moreover have "take (length (rs1 @ rs2)) q = batch @ take (length rs2) rest"
        using full npos by (simp add: batch_def rest_def take_add)
      then have "list_all2 owns (take (length (rs1 @ rs2)) q) (rs1 @ rs2)"
        using b1 rs2(3) by (simp add: list_all2_appendI)
      moreover have "err = None \<longrightarrow> length (rs1 @ rs2) = length q"
        using rs2(4) full npos by (simp add: rest_def)
      moreover have "None \<notin> set q \<Longrightarrow> None \<notin> set rest"
        unfolding rest_def by (auto dest: in_set_dropD)
      then have "\<not> telegram (cfg orc) \<and> None \<notin> set q \<longrightarrow> err = None"
        using rs2(5) c2 by auto
      ultimately show ?thesis unfolding ran_def by blast
    qed
    show ?thesis
    proof (cases thrown)
      case (Some m)
      then have "run_loop w orc q bn = Some (Some m, o1)" using unfold by simp
      moreover have "ran orc q (Some m) o1"
        using Some nothrow1 by (intro stopped) auto
      ultimately show ?thesis by blast
    next
      case nt: None
      then have full: "length rs1 = n" using full1 by simp
      show ?thesis
      proof (cases "telegram (cfg orc)")
        case noTg: False
        have "1 \<le> parallelSessions (cfg o1)" using less.prems cfg1 by simp
        from less.hyps [OF lrest this] obtain err orc'
          where "run_loop w o1 rest (bn + 1) = Some (err, orc')" "ran o1 rest err orc'"
          by blast
        then show ?thesis using unfold nt noTg compose [OF _ adv1 cfg1 full] by auto
      next
        case tg: True
        show ?thesis
        proof (cases "tgBatchStatus w (bn + 1)")
          case (Some m)
          have "ran orc q (Some m) o1" using nt tg by (intro stopped) auto
          then show ?thesis using unfold nt tg Some by simp
        next
          case None
          define o2 where "o2 = o1 \<lparr> sent := sent o1 @ [BatchStatus (stats o1)] \<rparr>"
          have a2: "advanced orc rs1 o2" unfolding o2_def using adv1 by (rule advanced_sent)
          have c2: "cfg o2 = cfg orc" using cfg1 by (simp add: o2_def)
          have "1 \<le> parallelSessions (cfg o2)" using less.prems c2 by simp
          from less.hyps [OF lrest this] obtain err orc'
            where "run_loop w o2 rest (bn + 1) = Some (err, orc')" "ran o2 rest err orc'"
            by blast
          then show ?thesis using unfold nt tg None compose [OF _ a2 c2 full] by (auto simp: o2_def)
        qed
      qed
    qed
  qed
qed

lemma ran_from_sent:
  "ran (a \<lparr> sent := sent a @ [SessionStarted n b e] \<rparr>) q err orc \<Longrightarrow> ran a q err orc"
  by (auto simp: ran_def advanced_def observed_started)

lemma run_total:
  assumes "1 \<le> parallelSessions (cfg orc)"
  shows "\<exists>err orc'. run w orc = Some (err, orc') \<and> ran orc (accounts orc) err orc'"
proof (cases "telegram (cfg orc) \<and> tgConnected w")
  case False
  then have "run w orc = run_loop w orc (accounts orc) 0"
    by (auto simp: run_def)
  then show ?thesis using run_loop_total [OF assms, of w "accounts orc" 0] by simp
next
  case True
  show ?thesis
  proof (cases "tgSessionStarted w")
    case (Some m)
    then have "run w orc = Some (Some m, orc)" using True by (simp add: run_def)
    moreover have "ran orc (accounts orc) (Some m) orc"
      unfolding ran_def using advanced_refl [of orc] True by (intro exI [of _ "[]"]) simp
    ultimately show ?thesis by blast
  next
    case None
    define o0 where "o0 = orc \<lparr> sent := sent orc @
                        [SessionStarted (int (length (accounts orc))) (parallelSessions (cfg orc))
                           (case accounts orc of
                              [] \<Rightarrow> None | None # _ \<Rightarrow> None | Some a # _ \<Rightarrow> email a)] \<rparr>"
    have r: "run w orc = run_loop w o0 (accounts orc) 0"
      using True None by (simp add: run_def o0_def)
    have "1 \<le> parallelSessions (cfg o0)" using assms by (simp add: o0_def)
    from run_loop_total [OF this, of w "accounts orc" 0] obtain err orc'
      where l: "run_loop w o0 (accounts orc) 0 = Some (err, orc')" "ran o0 (accounts orc) err orc'"
      by blast
    from l(2) have "ran orc (accounts orc) err orc'"
      unfolding o0_def by (rule ran_from_sent)
    then show ?thesis using r l(1) by simp
  qed
qed

lemma ran_fresh:
  assumes "ran (Orchestrator accs prox c) accs err orc"
  shows "accounts orc = accs \<and> proxies orc = prox \<and> cfg orc = c \<and>
         length (results orc) \<le> length accs \<and>
         list_all2 owns (take (length (results orc)) accs) (results orc) \<and>
         (err = None \<longrightarrow> length (results orc) = length accs) \<and>
         (\<not> telegram c \<and> None \<notin> set accs \<longrightarrow> err = None) \<and>
         total_count (stats orc) = int (length accs) \<and>
         pending (stats orc) = int (length accs) - int (length (results orc)) \<and>
         success (stats orc) = int (length (filter (\<lambda>r. r_status r = ''success'') (results orc))) \<and>
         failed (stats orc) = int (length (filter (\<lambda>r. r_status r = ''failed'') (results orc))) \<and>
         errors (stats orc) = int (length (filter errored (results orc))) \<and>
         observed orc"
  using assms observed_Orchestrator [of accs prox c]
  unfolding ran_def advanced_def by (auto simp: Orchestrator_def)


lemma completed_counts:
  assumes "ran (Orchestrator accs prox c) accs None orc"
  shows "pending (stats orc) = 0 \<and>
         success (stats orc) + failed (stats orc) + errors (stats orc) = int (length accs) \<and>
         total_count (stats orc) = int (length accs)"
proof -
  from ran_fresh [OF assms] have f: "length (results orc) = length accs"
      "total_count (stats orc) = int (length accs)"
      "pending (stats orc) = int (length accs) - int (length (results orc))"
      "observed orc"
    by simp_all
  from f(4) have "balanced (stats orc)" by (simp add: observed_def)
  with f(1,2,3) show ?thesis by (simp add: balanced_def)
qed

lemma validate_None:
  "validate c = None \<Longrightarrow> 1 \<le> parallelSessions c \<and> parallelSessions c \<le> 50 \<and> capsolverApiKey c \<noteq> []"
  by (auto simp: validate_def Let_def split: if_splits)

section \<open>Proxy assignment\<close>

text \<open>
  The proxy a task is given, in closed form, for the batch number \<open>run\<close> passes (which
  starts at 1).
\<close>

lemma assignedProxy_empty: "assignedProxy c [] batchNumber index = None"
  by (simp add: assignedProxy_def)

lemma assignedProxy_formula:
  assumes "0 \<le> parallelSessions c" and "prox \<noteq> []"
  shows "assignedProxy c prox batchNumber index =
           Some (prox ! ((batchNumber * nat (parallelSessions c) + index) mod length prox))"
proof -
  define n where "n = batchNumber * nat (parallelSessions c) + index"
  have n: "int batchNumber * parallelSessions c + int index = int n"
    using assms(1) by (simp add: n_def)
  have len: "0 < length prox" using assms(2) by simp
  have "js_rem (int n) (int (length prox)) = Some (int (n mod length prox))"
    using len by (cases "n = 0") (simp_all add: js_rem_def zmod_int)
  moreover have "n mod length prox < length prox" using len by simp
  ultimately show ?thesis
    using len unfolding assignedProxy_def proxyIndex_def n n_def [symmetric]
    by (simp add: at_def)
qed

text \<open>
  C1.  The code at the specification's own scenario: twelve accounts, batch size 5, three
  proxies (told apart by their region tags \<open>c0\<close>, \<open>c1\<close>, \<open>c2\<close>), every booking
  succeeding.  \<open>run\<close> numbers the batches from 1 and \<open>processBatch\<close> uses that number
  unchanged, so the first task of the run is given proxy \<open>(1 * 5 + 0) mod 3 = 2\<close>, not 0,
  and the first task of the second batch proxy \<open>(2 * 5 + 0) mod 3 = 1\<close>, not 2.
\<close>

theorem first_task_gets_proxy_two:
  "map_option (\<lambda>(err, orc). map r_proxyCountry (results orc))
     (run \<lparr> sess = (\<lambda>b i. \<lparr> preBooking = None,
                               pg = \<lparr> waitForSelector = None, matching = [''a.available''],
                                      timeSlots = 1, confirmButton = True,
                                      confirmationTexts = [] \<rparr>,
                               duration = ''50s'', settles = True \<rparr>),
             tgConnected = False, tgSessionStarted = None, tgBatchStatus = (\<lambda>b. None) \<rparr>
          (Orchestrator
             (map (\<lambda>n. Some \<lparr> username = Some (replicate (Suc n) CHR ''u''), email = None,
                               consulate = None \<rparr>) [0..<12])
             [''h:9000:t:wifi;c0;'', ''h:9000:t:wifi;c1;'', ''h:9000:t:wifi;c2;'']
             \<lparr> capsolverApiKey = ''key'', telegramBotToken = '''', telegramChatId = '''',
               parallelSessions = 5, retryAttempts = 0 \<rparr>))
   = Some [Some ''c2'', Some ''c0'', Some ''c1'', Some ''c2'', Some ''c0'',
           Some ''c1'', Some ''c2'', Some ''c0'', Some ''c1'', Some ''c2'',
           Some ''c0'', Some ''c1'']"
  by code_simp

section \<open>The retry pass\<close>

lemma findAccount_loaded:
  "findAccount n (map Some accs) = Inr (find (\<lambda>a. username a = n) accs)"
  by (induction accs) simp_all

lemma lookupAll_loaded:
  "lookupAll (map Some accs) rs
     = Inr (List.map_filter (\<lambda>r. find (\<lambda>a. username a = r_account r) accs) rs)"
  by (induction rs) (simp_all add: findAccount_loaded map_filter_simps split: option.split)

lemma failedAccounts_loaded:
  assumes "accounts orc = map Some accs"
  shows "failedAccounts orc =
     Inr (List.map_filter (\<lambda>r. find (\<lambda>a. username a = r_account r) accs)
            (filter (\<lambda>r. r_status r = ''error'' \<or> r_status r = ''timeout'') (results orc)))"
  using assms by (simp add: failedAccounts_def lookupAll_loaded)

lemma retryFailed_throws:
  "failedAccounts orc = Inl m \<Longrightarrow> retryFailed w orc = Some (Some m, None, orc)"
  by (simp add: retryFailed_def)

lemma retryFailed_total:
  assumes "1 \<le> parallelSessions (cfg orc)" and "failedAccounts orc = Inr retried"
  obtains (no_retry) "retried = []" "retryFailed w orc = Some (None, None, orc)"
    | (threw) m r where "retried \<noteq> []"
        "run w (Orchestrator (map Some retried) (proxies orc) (cfg orc)) = Some (Some m, r)"
        "ran (Orchestrator (map Some retried) (proxies orc) (cfg orc)) (map Some retried) (Some m) r"
        "retryFailed w orc = Some (Some m, Some r, orc)"
    | (merged) r where "retried \<noteq> []"
        "run w (Orchestrator (map Some retried) (proxies orc) (cfg orc)) = Some (None, r)"
        "ran (Orchestrator (map Some retried) (proxies orc) (cfg orc)) (map Some retried) None r"
        "retryFailed w orc = Some (None, Some r, mergeResults orc r)"
proof (cases "retried = []")
  case True
  then have "retryFailed w orc = Some (None, None, orc)"
    using assms(2) by (simp add: retryFailed_def)
  with True show ?thesis by (rule no_retry)
next
  case False
  let ?ro = "Orchestrator (map Some retried) (proxies orc) (cfg orc)"
  have "1 \<le> parallelSessions (cfg ?ro)" using assms(1) by (simp add: Orchestrator_def)
  from run_total [OF this, of w] obtain err r
    where r: "run w ?ro = Some (err, r)" "ran ?ro (accounts ?ro) err r" by blast
  have acc: "accounts ?ro = map Some retried" by (simp add: Orchestrator_def)
  show ?thesis
  proof (cases err)
    case None
    have "retryFailed w orc = Some (None, Some r, mergeResults orc r)"
      using r(1) False None assms(2) by (simp add: retryFailed_def)
    moreover have "ran ?ro (map Some retried) None r" using r(2) acc None by simp
    moreover have "run w ?ro = Some (None, r)" using r(1) None by simp
    ultimately show ?thesis using False merged by blast
  next
    case (Some m)
    have "retryFailed w orc = Some (Some m, Some r, orc)"
      using r(1) False Some assms(2) by (simp add: retryFailed_def)
    moreover have "ran ?ro (map Some retried) (Some m) r" using r(2) acc Some by simp
    moreover have "run w ?ro = Some (Some m, r)" using r(1) Some by simp
    ultimately show ?thesis using False threw by blast
  qed
qed

lemma map_filter_matched:
  "list_all2 (\<lambda>x y. f x = Some y) (filter (\<lambda>x. f x \<noteq> None) xs) (List.map_filter f xs)"
  by (induction xs) (auto simp: map_filter_simps split: option.splits)

lemma find_username_None:
  "find (\<lambda>a. username a = n) accs = None \<longleftrightarrow> n \<notin> username ` set accs"
  by (auto simp: find_None_iff)

lemma retried_first_match:
  fixes rs :: "result list"
  assumes "a \<in> set (List.map_filter (\<lambda>r. find (\<lambda>a. username a = r_account r) accs) rs)"
  shows "find (\<lambda>b. username b = username a) accs = Some a"
proof -
  from assms obtain r :: result
    where r: "find (\<lambda>b. username b = r_account r) accs = Some a"
    by (auto simp: map_filter_def)
  then have "username a = r_account r"
    by (auto simp: find_Some_iff)
  with r show ?thesis by simp
qed

lemma retried_unmatched:
  fixes rs :: "result list"
  assumes "\<forall>r \<in> set rs. r_account r \<notin> username ` set accs"
  shows "List.map_filter (\<lambda>r. find (\<lambda>a. username a = r_account r) accs) rs = []"
proof -
  have "\<forall>r \<in> set rs. find (\<lambda>a. username a = r_account r) accs = None"
    using assms by (auto simp: find_username_None)
  then show ?thesis
    by (auto simp add: map_filter_def filter_empty_conv)
qed

lemma owns_loaded:
  "list_all2 owns (take n (map Some as)) rs \<longleftrightarrow> list_all2 owner (take n as) rs"
  by (simp add: take_map list_all2_map1 owns_def)

text \<open>
  C10.  Take an orchestrator whose loaded accounts hold no \<open>null\<close> entry and whose batch
  size is at least 1.  The lookup of \<open>retryFailed\<close> does not throw, and the retry list it
  builds is a first-match lookup on the username: it corresponds, in order, to the error
  and timeout outcomes whose recorded account name is the username of some loaded
  account, each paired with the first loaded account of that username (so an outcome
  whose name matches no account contributes nothing, and of several accounts sharing a
  username only the first can appear).  When the list is empty, as it is when no error or
  timeout outcome matches, \<open>retryFailed\<close> returns without throwing, without a retry run
  and with the orchestrator, its sent messages included, unchanged.  Otherwise
  \<open>retryFailed\<close> runs one fresh orchestrator over exactly that list: the run returns, the
  accounts of the retry orchestrator are the list, its outcomes belong, in order, to a
  prefix of the list (to all of it when the run did not throw), and \<open>retryFailed\<close>
  rethrows what the run threw or else merges the run's counters into its own.
\<close>

theorem retry_lookup_first_match:
  assumes a: "accounts orc = map Some accs" and ps: "1 \<le> parallelSessions (cfg orc)"
  shows "\<exists>retried.
     failedAccounts orc = Inr retried \<and>
     list_all2 (\<lambda>r a. find (\<lambda>b. username b = r_account r) accs = Some a)
       (filter (\<lambda>r. (r_status r = ''error'' \<or> r_status r = ''timeout'') \<and>
                     r_account r \<in> username ` set accs) (results orc))
       retried \<and>
     (\<forall>a \<in> set retried. find (\<lambda>b. username b = username a) accs = Some a) \<and>
     ((\<forall>r \<in> set (results orc). r_status r = ''error'' \<or> r_status r = ''timeout'' \<longrightarrow>
           r_account r \<notin> username ` set accs) \<longrightarrow> retried = []) \<and>
     (if retried = [] then retryFailed w orc = Some (None, None, orc)
      else \<exists>err ro.
             run w (Orchestrator (map Some retried) (proxies orc) (cfg orc)) = Some (err, ro) \<and>
             accounts ro = map Some retried \<and>
             length (results ro) \<le> length retried \<and>
             list_all2 owner (take (length (results ro)) retried) (results ro) \<and>
             (err = None \<longrightarrow> length (results ro) = length retried) \<and>
             retryFailed w orc =
               Some (err, Some ro, if err = None then mergeResults orc ro else orc))"
proof -
  let ?f = "\<lambda>r. find (\<lambda>b. username b = r_account r) accs"
  let ?errs = "filter (\<lambda>r. r_status r = ''error'' \<or> r_status r = ''timeout'') (results orc)"
  define retried where "retried = List.map_filter ?f ?errs"
  have fa: "failedAccounts orc = Inr retried"
    unfolding retried_def using a by (rule failedAccounts_loaded)
  have "filter (\<lambda>r. (r_status r = ''error'' \<or> r_status r = ''timeout'') \<and>
                   r_account r \<in> username ` set accs) (results orc)
        = filter (\<lambda>r. ?f r \<noteq> None) ?errs"
    by (simp add: find_username_None conj_commute)
  moreover have "list_all2 (\<lambda>r a. ?f r = Some a) (filter (\<lambda>r. ?f r \<noteq> None) ?errs)
                   (List.map_filter ?f ?errs)"
    by (rule map_filter_matched)
  ultimately have one: "list_all2 (\<lambda>r a. ?f r = Some a)
     (filter (\<lambda>r. (r_status r = ''error'' \<or> r_status r = ''timeout'') \<and>
                   r_account r \<in> username ` set accs) (results orc))
     retried"
    by (simp add: retried_def)
  have two: "\<forall>a \<in> set retried. find (\<lambda>b. username b = username a) accs = Some a"
    unfolding retried_def using retried_first_match by blast
  have three: "(\<forall>r \<in> set (results orc). r_status r = ''error'' \<or> r_status r = ''timeout'' \<longrightarrow>
             r_account r \<notin> username ` set accs) \<longrightarrow> retried = []"
    unfolding retried_def by (auto intro!: retried_unmatched)
  let ?ro = "Orchestrator (map Some retried) (proxies orc) (cfg orc)"
  have four: "if retried = [] then retryFailed w orc = Some (None, None, orc)
      else \<exists>err ro.
             run w ?ro = Some (err, ro) \<and>
             accounts ro = map Some retried \<and>
             length (results ro) \<le> length retried \<and>
             list_all2 owner (take (length (results ro)) retried) (results ro) \<and>
             (err = None \<longrightarrow> length (results ro) = length retried) \<and>
             retryFailed w orc =
               Some (err, Some ro, if err = None then mergeResults orc ro else orc)"
  proof -
    consider (no_retry) "retried = []" "retryFailed w orc = Some (None, None, orc)"
      | (threw) m r where "retried \<noteq> []" "run w ?ro = Some (Some m, r)"
          "ran ?ro (map Some retried) (Some m) r"
          "retryFailed w orc = Some (Some m, Some r, orc)"
      | (merged) r where "retried \<noteq> []" "run w ?ro = Some (None, r)"
          "ran ?ro (map Some retried) None r"
          "retryFailed w orc = Some (None, Some r, mergeResults orc r)"
      by (rule retryFailed_total [OF ps fa, where w = w])
    then show ?thesis
    proof cases
      case no_retry
      then show ?thesis by simp
    next
      case (threw m r)
      note g = ran_fresh [OF threw(3)]
      from g have "accounts r = map Some retried" by blast
      moreover from g have "length (results r) \<le> length retried" by simp
      moreover from g have "list_all2 owns (take (length (results r)) (map Some retried)) (results r)"
        by blast
      then have "list_all2 owner (take (length (results r)) retried) (results r)"
        by (simp only: owns_loaded)
      ultimately show ?thesis using threw(1,2,4) by simp
    next
      case (merged r)
      note g = ran_fresh [OF merged(3)]
      from g have "accounts r = map Some retried" by blast
      moreover from g have "length (results r) = length retried" by simp
      moreover from g have "list_all2 owns (take (length (results r)) (map Some retried)) (results r)"
        by blast
      then have "list_all2 owner (take (length (results r)) retried) (results r)"
        by (simp only: owns_loaded)
      ultimately show ?thesis using merged(1,2,4) by simp
    qed
  qed
  from fa one two three four show ?thesis by blast
qed







lemma owns_all_loaded:
  "list_all2 owns q rs \<Longrightarrow> q = map Some (map the q)"
  by (induction rule: list_all2_induct) (auto simp: owns_def split: option.splits)

lemma ran_no_null:
  assumes "ran (Orchestrator q prox c) q None orc"
  obtains as where "q = map Some as" "list_all2 owner as (results orc)"
proof -
  from ran_fresh [OF assms] have len: "length (results orc) = length q"
    and own: "list_all2 owns (take (length (results orc)) q) (results orc)"
    by blast+
  from own have o: "list_all2 owns q (results orc)" unfolding len by simp
  from owns_all_loaded [OF o] obtain as where as: "q = map Some as" ..
  from o have "list_all2 owner as (results orc)"
    unfolding as by (simp add: list_all2_map1 owns_def)
  with as show ?thesis by (rule that)
qed

theorem retry_lookup_first_match_witness:
  "accounts \<lparr> accounts = [Some \<lparr> username = Some ''u'', email = Some ''first@x'', consulate = None \<rparr>,
                      Some \<lparr> username = Some ''u'', email = Some ''second@x'', consulate = None \<rparr>],
          proxies = [],
          cfg = \<lparr> capsolverApiKey = ''key'', telegramBotToken = '''', telegramChatId = '''',
                  parallelSessions = 2, retryAttempts = 1 \<rparr>,
          stats = \<lparr> total_count = 2, success = 0, failed = 0, pending = 0, errors = 2 \<rparr>,
          results = [errorResult \<lparr> username = Some ''u'', email = Some ''second@x'', consulate = None \<rparr> ''Login failed'',
                     timeoutResult \<lparr> username = Some ''gone'', email = None, consulate = None \<rparr>],
          sent = [] \<rparr>
     = map Some [\<lparr> username = Some ''u'', email = Some ''first@x'', consulate = None \<rparr>,
                 \<lparr> username = Some ''u'', email = Some ''second@x'', consulate = None \<rparr>]
   \<and> (\<exists>ro. retryFailed
        \<lparr> sess = (\<lambda>b i. \<lparr> preBooking = None,
                               pg = \<lparr> waitForSelector = None, matching = [], timeSlots = 0,
                                      confirmButton = False, confirmationTexts = [] \<rparr>,
                               duration = ''50s'', settles = True \<rparr>),
          tgConnected = False, tgSessionStarted = None, tgBatchStatus = (\<lambda>b. None) \<rparr>
        \<lparr> accounts = [Some \<lparr> username = Some ''u'', email = Some ''first@x'', consulate = None \<rparr>,
                      Some \<lparr> username = Some ''u'', email = Some ''second@x'', consulate = None \<rparr>],
          proxies = [],
          cfg = \<lparr> capsolverApiKey = ''key'', telegramBotToken = '''', telegramChatId = '''',
                  parallelSessions = 2, retryAttempts = 1 \<rparr>,
          stats = \<lparr> total_count = 2, success = 0, failed = 0, pending = 0, errors = 2 \<rparr>,
          results = [errorResult \<lparr> username = Some ''u'', email = Some ''second@x'', consulate = None \<rparr> ''Login failed'',
                     timeoutResult \<lparr> username = Some ''gone'', email = None, consulate = None \<rparr>],
          sent = [] \<rparr>
      = Some (None, Some ro,
          mergeResults
            \<lparr> accounts = [Some \<lparr> username = Some ''u'', email = Some ''first@x'', consulate = None \<rparr>,
                          Some \<lparr> username = Some ''u'', email = Some ''second@x'', consulate = None \<rparr>],
              proxies = [],
              cfg = \<lparr> capsolverApiKey = ''key'', telegramBotToken = '''', telegramChatId = '''',
                      parallelSessions = 2, retryAttempts = 1 \<rparr>,
              stats = \<lparr> total_count = 2, success = 0, failed = 0, pending = 0, errors = 2 \<rparr>,
              results = [errorResult \<lparr> username = Some ''u'', email = Some ''second@x'', consulate = None \<rparr> ''Login failed'',
                         timeoutResult \<lparr> username = Some ''gone'', email = None, consulate = None \<rparr>],
              sent = [] \<rparr> ro)
      \<and> accounts ro = [Some \<lparr> username = Some ''u'', email = Some ''first@x'', consulate = None \<rparr>]
      \<and> length (results ro) = 1)"
proof -
  let ?A1 = "\<lparr> username = Some ''u'', email = Some ''first@x'', consulate = None \<rparr>"
  let ?A2 = "\<lparr> username = Some ''u'', email = Some ''second@x'', consulate = None \<rparr>"
  let ?c = "\<lparr> capsolverApiKey = ''key'', telegramBotToken = '''', telegramChatId = '''',
                  parallelSessions = 2, retryAttempts = 1 \<rparr>"
  let ?o1 = "\<lparr> accounts = [Some ?A1, Some ?A2],
          proxies = [],
          cfg = ?c,
          stats = \<lparr> total_count = 2, success = 0, failed = 0, pending = 0, errors = 2 \<rparr>,
          results = [errorResult ?A2 ''Login failed'',
                     timeoutResult \<lparr> username = Some ''gone'', email = None, consulate = None \<rparr>],
          sent = [] \<rparr>"
  let ?w = "\<lparr> sess = (\<lambda>b i. \<lparr> preBooking = None,
                               pg = \<lparr> waitForSelector = None, matching = [], timeSlots = 0,
                                      confirmButton = False, confirmationTexts = [] \<rparr>,
                               duration = ''50s'', settles = True \<rparr>),
          tgConnected = False, tgSessionStarted = None, tgBatchStatus = (\<lambda>b. None) \<rparr>"
  have a: "accounts ?o1 = map Some [?A1, ?A2]" by simp
  have ps: "1 \<le> parallelSessions (cfg ?o1)" by simp
  have fa: "failedAccounts ?o1 = Inr [?A1]" by code_simp
  have e: "map_option fst (run ?w (Orchestrator (map Some [?A1]) [] ?c)) = Some None"
    by code_simp
  from retry_lookup_first_match [OF a ps, of ?w] obtain retried
    where r: "failedAccounts ?o1 = Inr retried"
      and f: "if retried = [] then retryFailed ?w ?o1 = Some (None, None, ?o1)
      else \<exists>err ro.
             run ?w (Orchestrator (map Some retried) (proxies ?o1) (cfg ?o1)) = Some (err, ro) \<and>
             accounts ro = map Some retried \<and>
             length (results ro) \<le> length retried \<and>
             list_all2 owner (take (length (results ro)) retried) (results ro) \<and>
             (err = None \<longrightarrow> length (results ro) = length retried) \<and>
             retryFailed ?w ?o1 =
               Some (err, Some ro, if err = None then mergeResults ?o1 ro else ?o1)"
    by blast
  from r fa have rt: "retried = [?A1]" by simp
  from f obtain err ro
    where g: "run ?w (Orchestrator (map Some [?A1]) [] ?c) = Some (err, ro)"
        "accounts ro = map Some [?A1]"
        "err = None \<longrightarrow> length (results ro) = length [?A1]"
        "retryFailed ?w ?o1 = Some (err, Some ro, if err = None then mergeResults ?o1 ro else ?o1)"
    unfolding rt by auto
  from e g(1) have "err = None" by simp
  with g(2,3,4) have "retryFailed ?w ?o1 = Some (None, Some ro, mergeResults ?o1 ro)
      \<and> accounts ro = [Some ?A1] \<and> length (results ro) = 1"
    by simp
  then show ?thesis using a by blast
qed

text \<open>
  An exit of \<open>main\<close> without a throw is possible only when no entry of the accounts file
  is \<open>null\<close>.
\<close>

lemma no_fatal_no_null:
  assumes m: "main c env = Some ex" and a: "accountsFile env = Some entries"
    and nf: "fatal ex = None"
  shows "\<exists>accs. entries = map Some accs"
proof -
  have v: "validate c = None"
    using m nf by (cases "validate c") (auto simp: main_def)
  have ne: "entries \<noteq> []"
    using m nf a v by (cases entries) (auto simp: main_def loadAccounts_def)
  have la: "loadAccounts (accountsFile env) = Inr entries"
    using a ne by (simp add: loadAccounts_def)
  define prox where "prox = loadProxies (proxiesFile env)"
  let ?o = "Orchestrator entries prox c"
  have ps: "1 \<le> parallelSessions c" using validate_None [OF v] by simp
  then have "1 \<le> parallelSessions (cfg ?o)" by (simp add: Orchestrator_def)
  from run_total [OF this, of "firstRun env"] obtain err orc1
    where run: "run (firstRun env) ?o = Some (err, orc1)" and ran: "ran ?o entries err orc1"
    by (auto simp: Orchestrator_def)
  have err: "err = None"
    using m nf v la ne run by (cases err) (auto simp: main_def prox_def)
  from ran have "ran ?o entries None orc1" unfolding err .
  then obtain as where "entries = map Some as" by (rule ran_no_null)
  then show ?thesis by blast
qed




section \<open>The counters\<close>

text \<open>
  C2 (as amended).  With a validated batch size, the equation
  \<open>success + failed + errors + pending = total\<close> holds of a fresh orchestrator and is kept
  by every \<open>processSessionResult\<close>; \<open>run\<close> returns, and the equation then holds of the
  counters and of every batch status that was sent; when \<open>run\<close> did not throw,
  \<open>pending\<close> is 0 and \<open>success + failed + errors = total\<close>.  The retry pass then returns
  and leaves \<open>total\<close> and \<open>pending\<close> as they were.  When it makes no retry run, or the
  retry run throws, all five counters are unchanged.  When the retry run completes, its
  \<open>success\<close>, \<open>failed\<close> and \<open>errors\<close> are added, each to the parent's counter of the same
  name, and they sum to the number of retried accounts, which is not zero; so afterwards
  \<open>success + failed + errors\<close> is \<open>total\<close> plus the number of retried accounts.
\<close>

theorem stats_balance:
  assumes "1 \<le> parallelSessions c"
  shows "balanced (stats (Orchestrator accs prox c))
    \<and> (\<forall>orc r. balanced (stats orc) \<longrightarrow> balanced (stats (processSessionResult orc r)))
    \<and> (\<exists>err orc. run w (Orchestrator accs prox c) = Some (err, orc) \<and>
          balanced (stats orc) \<and> (\<forall>s. BatchStatus s \<in> set (sent orc) \<longrightarrow> balanced s) \<and>
          (err = None \<longrightarrow>
             pending (stats orc) = 0 \<and>
             success (stats orc) + failed (stats orc) + errors (stats orc) = total_count (stats orc) \<and>
             (\<exists>err' ro orc'. retryFailed w' orc = Some (err', ro, orc') \<and>
                total_count (stats orc') = total_count (stats orc) \<and>
                pending (stats orc') = pending (stats orc) \<and>
                (case ro of
                   None \<Rightarrow> stats orc' = stats orc
                 | Some r \<Rightarrow>
                     accounts r \<noteq> [] \<and>
                     (if err' = None
                      then success (stats orc') = success (stats orc) + success (stats r) \<and>
                           failed (stats orc') = failed (stats orc) + failed (stats r) \<and>
                           errors (stats orc') = errors (stats orc) + errors (stats r) \<and>
                           success (stats r) + failed (stats r) + errors (stats r)
                             = int (length (accounts r))
                      else stats orc' = stats orc)) \<and>
                (err' = None \<longrightarrow>
                   success (stats orc') + failed (stats orc') + errors (stats orc')
                     = total_count (stats orc') + (case ro of None \<Rightarrow> 0 | Some r \<Rightarrow> int (length (accounts r)))
                   \<and> (\<forall>r. ro = Some r \<longrightarrow> accounts r \<noteq> [])))))"
proof -
  let ?o = "Orchestrator accs prox c"
  have one: "balanced (stats ?o)"
    using observed_Orchestrator [of accs prox c] by (simp add: observed_def)
  have two: "\<forall>orc r. balanced (stats orc) \<longrightarrow> balanced (stats (processSessionResult orc r))"
    by (simp add: balanced_processSessionResult)
  have "1 \<le> parallelSessions (cfg ?o)" using assms by (simp add: Orchestrator_def)
  from run_total [OF this, of w] obtain err orc
    where run: "run w ?o = Some (err, orc)" and ran: "ran ?o accs err orc"
    by (auto simp: Orchestrator_def)
  note f = ran_fresh [OF ran]
  from f have obs: "observed orc" by simp
  then have bal: "balanced (stats orc)" "\<forall>s. BatchStatus s \<in> set (sent orc) \<longrightarrow> balanced s"
    by (simp_all add: observed_def)
  have fin: "pending (stats orc) = 0 \<and>
             success (stats orc) + failed (stats orc) + errors (stats orc) = total_count (stats orc) \<and>
             (\<exists>err' ro orc'. retryFailed w' orc = Some (err', ro, orc') \<and>
                total_count (stats orc') = total_count (stats orc) \<and>
                pending (stats orc') = pending (stats orc) \<and>
                (case ro of
                   None \<Rightarrow> stats orc' = stats orc
                 | Some r \<Rightarrow>
                     accounts r \<noteq> [] \<and>
                     (if err' = None
                      then success (stats orc') = success (stats orc) + success (stats r) \<and>
                           failed (stats orc') = failed (stats orc) + failed (stats r) \<and>
                           errors (stats orc') = errors (stats orc) + errors (stats r) \<and>
                           success (stats r) + failed (stats r) + errors (stats r)
                             = int (length (accounts r))
                      else stats orc' = stats orc)) \<and>
                (err' = None \<longrightarrow>
                   success (stats orc') + failed (stats orc') + errors (stats orc')
                     = total_count (stats orc') + (case ro of None \<Rightarrow> 0 | Some r \<Rightarrow> int (length (accounts r)))
                   \<and> (\<forall>r. ro = Some r \<longrightarrow> accounts r \<noteq> [])))"
    if none: "err = None"
  proof -
    from ran none have rn: "ran ?o accs None orc" by simp
    from completed_counts [OF rn]
    have cc: "pending (stats orc) = 0"
        "success (stats orc) + failed (stats orc) + errors (stats orc) = int (length accs)"
        "total_count (stats orc) = int (length accs)"
      by simp_all
    have ps: "1 \<le> parallelSessions (cfg orc)" using f assms by simp
    from rn obtain as where as: "accs = map Some as" by (rule ran_no_null)
    from f as have "accounts orc = map Some as" by simp
    from failedAccounts_loaded [OF this] obtain retried
      where fa: "failedAccounts orc = Inr retried" by blast
    let ?ro = "Orchestrator (map Some retried) (proxies orc) (cfg orc)"
    consider (no_retry) "retried = []" "retryFailed w' orc = Some (None, None, orc)"
      | (threw) m r where "retried \<noteq> []" "run w' ?ro = Some (Some m, r)"
          "ran ?ro (map Some retried) (Some m) r"
          "retryFailed w' orc = Some (Some m, Some r, orc)"
      | (merged) r where "retried \<noteq> []" "run w' ?ro = Some (None, r)"
          "ran ?ro (map Some retried) None r"
          "retryFailed w' orc = Some (None, Some r, mergeResults orc r)"
      by (rule retryFailed_total [OF ps fa, where w = w'])
    then have "\<exists>err' ro orc'. retryFailed w' orc = Some (err', ro, orc') \<and>
                total_count (stats orc') = total_count (stats orc) \<and>
                pending (stats orc') = pending (stats orc) \<and>
                (case ro of
                   None \<Rightarrow> stats orc' = stats orc
                 | Some r \<Rightarrow>
                     accounts r \<noteq> [] \<and>
                     (if err' = None
                      then success (stats orc') = success (stats orc) + success (stats r) \<and>
                           failed (stats orc') = failed (stats orc) + failed (stats r) \<and>
                           errors (stats orc') = errors (stats orc) + errors (stats r) \<and>
                           success (stats r) + failed (stats r) + errors (stats r)
                             = int (length (accounts r))
                      else stats orc' = stats orc)) \<and>
                (err' = None \<longrightarrow>
                   success (stats orc') + failed (stats orc') + errors (stats orc')
                     = total_count (stats orc') + (case ro of None \<Rightarrow> 0 | Some r \<Rightarrow> int (length (accounts r)))
                   \<and> (\<forall>r. ro = Some r \<longrightarrow> accounts r \<noteq> []))"
    proof cases
      case no_retry
      show ?thesis
        by (rule exI [of _ None], rule exI [of _ None], rule exI [of _ orc])
           (simp add: no_retry(2) cc)
    next
      case (threw m r)
      from ran_fresh [OF threw(3)] threw(1) have "accounts r \<noteq> []" by simp
      then show ?thesis
        by (intro exI [of _ "Some m"] exI [of _ "Some r"] exI [of _ orc])
           (simp add: threw(4))
    next
      case (merged r)
      from completed_counts [OF merged(3)]
      have sum: "success (stats r) + failed (stats r) + errors (stats r) = int (length retried)"
        by simp
      from ran_fresh [OF merged(3)] have acc: "accounts r = map Some retried" by blast
      have ne: "accounts r \<noteq> []" using acc merged(1) by simp
      have lacc: "int (length (accounts r)) = int (length retried)" using acc by simp
      have parts: "total_count (stats (mergeResults orc r)) = total_count (stats orc)"
          "pending (stats (mergeResults orc r)) = pending (stats orc)"
          "success (stats (mergeResults orc r)) = success (stats orc) + success (stats r)"
          "failed (stats (mergeResults orc r)) = failed (stats orc) + failed (stats r)"
          "errors (stats (mergeResults orc r)) = errors (stats orc) + errors (stats r)"
        by (simp_all add: mergeResults_def)
      have tot: "success (stats (mergeResults orc r)) + failed (stats (mergeResults orc r))
               + errors (stats (mergeResults orc r))
              = total_count (stats (mergeResults orc r)) + int (length (accounts r))"
        unfolding parts lacc using cc sum by arith
      have sum': "success (stats r) + failed (stats r) + errors (stats r) = int (length (accounts r))"
        using sum lacc by simp
      have body: "total_count (stats (mergeResults orc r)) = total_count (stats orc) \<and>
          pending (stats (mergeResults orc r)) = pending (stats orc) \<and>
          (accounts r \<noteq> [] \<and>
             success (stats (mergeResults orc r)) = success (stats orc) + success (stats r) \<and>
             failed (stats (mergeResults orc r)) = failed (stats orc) + failed (stats r) \<and>
             errors (stats (mergeResults orc r)) = errors (stats orc) + errors (stats r) \<and>
             success (stats r) + failed (stats r) + errors (stats r) = int (length (accounts r))) \<and>
          success (stats (mergeResults orc r)) + failed (stats (mergeResults orc r))
               + errors (stats (mergeResults orc r))
              = total_count (stats (mergeResults orc r)) + int (length (accounts r))"
        using parts ne sum' tot by blast
      have final: "retryFailed w' orc = Some (None, Some r, mergeResults orc r) \<and>
                total_count (stats (mergeResults orc r)) = total_count (stats orc) \<and>
                pending (stats (mergeResults orc r)) = pending (stats orc) \<and>
                (case Some r of
                   None \<Rightarrow> stats (mergeResults orc r) = stats orc
                 | Some x \<Rightarrow>
                     accounts x \<noteq> [] \<and>
                     (if (None :: string option) = None
                      then success (stats (mergeResults orc r)) = success (stats orc) + success (stats x) \<and>
                           failed (stats (mergeResults orc r)) = failed (stats orc) + failed (stats x) \<and>
                           errors (stats (mergeResults orc r)) = errors (stats orc) + errors (stats x) \<and>
                           success (stats x) + failed (stats x) + errors (stats x)
                             = int (length (accounts x))
                      else stats (mergeResults orc r) = stats orc)) \<and>
                ((None :: string option) = None \<longrightarrow>
                   success (stats (mergeResults orc r)) + failed (stats (mergeResults orc r)) + errors (stats (mergeResults orc r))
                     = total_count (stats (mergeResults orc r)) + (case Some r of None \<Rightarrow> 0 | Some x \<Rightarrow> int (length (accounts x)))
                   \<and> (\<forall>x. Some r = Some x \<longrightarrow> accounts x \<noteq> []))"
        using merged(4) body by (simp (no_asm) only: option.case option.inject simp_thms if_True) blast
      show ?thesis
        by (rule exI [of _ None], rule exI [of _ "Some r"], rule exI [of _ "mergeResults orc r"])
           (rule final)
    qed
    with cc show ?thesis by simp
  qed
  from one two run bal fin show ?thesis by blast
qed

theorem stats_balance_witness:
  "(1::int) \<le> 2 \<and>
   (\<exists>orc. run \<lparr> sess = (\<lambda>b i. \<lparr> preBooking = (if i = 0 then Some ''Login failed: rejected'' else None),
                               pg = \<lparr> waitForSelector = None, matching = [''a.available''],
                                      timeSlots = 1, confirmButton = True,
                                      confirmationTexts = [] \<rparr>,
                               duration = ''50s'', settles = True \<rparr>),
             tgConnected = False, tgSessionStarted = None, tgBatchStatus = (\<lambda>b. None) \<rparr>
          (Orchestrator
             [Some \<lparr> username = Some ''a'', email = None, consulate = None \<rparr>,
              Some \<lparr> username = Some ''b'', email = None, consulate = None \<rparr>,
              Some \<lparr> username = Some ''c'', email = None, consulate = None \<rparr>] []
             \<lparr> capsolverApiKey = ''key'', telegramBotToken = '''', telegramChatId = '''',
               parallelSessions = 2, retryAttempts = 1 \<rparr>) = Some (None, orc)
      \<and> pending (stats orc) = 0
      \<and> success (stats orc) + failed (stats orc) + errors (stats orc) = total_count (stats orc))"
proof -
  let ?w = "\<lparr> sess = (\<lambda>b i. \<lparr> preBooking = (if i = 0 then Some ''Login failed: rejected'' else None),
                               pg = \<lparr> waitForSelector = None, matching = [''a.available''],
                                      timeSlots = 1, confirmButton = True,
                                      confirmationTexts = [] \<rparr>,
                               duration = ''50s'', settles = True \<rparr>),
             tgConnected = False, tgSessionStarted = None, tgBatchStatus = (\<lambda>b. None) \<rparr>"
  let ?a = "[Some \<lparr> username = Some ''a'', email = None, consulate = None \<rparr>,
              Some \<lparr> username = Some ''b'', email = None, consulate = None \<rparr>,
              Some \<lparr> username = Some ''c'', email = None, consulate = None \<rparr>]"
  let ?c = "\<lparr> capsolverApiKey = ''key'', telegramBotToken = '''', telegramChatId = '''',
               parallelSessions = 2, retryAttempts = 1 \<rparr>"
  have ps: "1 \<le> parallelSessions ?c" by simp
  have e: "map_option fst (run ?w (Orchestrator ?a [] ?c)) = Some None"
    by code_simp
  from stats_balance [OF ps, of ?a "[]" ?w ?w] obtain err orc
    where r: "run ?w (Orchestrator ?a [] ?c) = Some (err, orc)"
      and f: "err = None \<longrightarrow> pending (stats orc) = 0 \<and>
             success (stats orc) + failed (stats orc) + errors (stats orc) = total_count (stats orc)"
    by blast
  from e r have "err = None" by simp
  with r f show ?thesis by auto
qed

text \<open>The claim as written fails after a retry pass: one account whose login is rejected
  in the first run and again in the retry leaves \<open>total = 1\<close> and \<open>errors = 2\<close>.\<close>

theorem merged_stats_exceed_total:
  "map_option stats (Option.bind
     (main \<lparr> capsolverApiKey = ''key'', telegramBotToken = '''', telegramChatId = '''',
             parallelSessions = 1, retryAttempts = 1 \<rparr>
           \<lparr> accountsFile = Some [Some \<lparr> username = Some ''u1'', email = Some ''u1@x'', consulate = None \<rparr>],
             proxiesFile = None,
             firstRun = \<lparr> sess = (\<lambda>b i. \<lparr> preBooking = Some ''Login failed: rejected'',
                                  pg = \<lparr> waitForSelector = None, matching = [], timeSlots = 0,
                                         confirmButton = False, confirmationTexts = [] \<rparr>,
                                  duration = ''9s'', settles = True \<rparr>),
                          tgConnected = False, tgSessionStarted = None,
                          tgBatchStatus = (\<lambda>b. None) \<rparr>,
             retryRun = \<lparr> sess = (\<lambda>b i. \<lparr> preBooking = Some ''Login failed: rejected'',
                                  pg = \<lparr> waitForSelector = None, matching = [], timeSlots = 0,
                                         confirmButton = False, confirmationTexts = [] \<rparr>,
                                  duration = ''9s'', settles = True \<rparr>),
                          tgConnected = False, tgSessionStarted = None,
                          tgBatchStatus = (\<lambda>b. None) \<rparr> \<rparr>)
     orchestrator_at_exit)
   = Some \<lparr> total_count = 1, success = 0, failed = 0, pending = 0, errors = 2 \<rparr>"
  by code_simp

section \<open>The exit code\<close>

text \<open>
  \<open>main\<close> always reaches an exit, and when no notifier is configured and no entry of the
  accounts file is \<open>null\<close> the exit code is 0 exactly when some outcome of the first run
  or of the retry run has status \<open>success\<close>.
\<close>

lemma retryFailed_returns:
  assumes "1 \<le> parallelSessions (cfg orc)"
  shows "\<exists>e r orc'. retryFailed w orc = Some (e, r, orc')"
proof (cases "failedAccounts orc")
  case (Inl m)
  then show ?thesis by (simp add: retryFailed_throws)
next
  case (Inr retried)
  let ?ro = "Orchestrator (map Some retried) (proxies orc) (cfg orc)"
  consider (no_retry) "retryFailed w orc = Some (None, None, orc)"
    | (threw) m r where "retryFailed w orc = Some (Some m, Some r, orc)"
    | (merged) r where "retryFailed w orc = Some (None, Some r, mergeResults orc r)"
    by (rule retryFailed_total [OF assms Inr, where w = w])
  then show ?thesis by cases simp_all
qed

lemma main_total: "\<exists>ex. main c env = Some ex"
proof (cases "validate c")
  case (Some m)
  then show ?thesis by (simp add: main_def)
next
  case None
  then have ps: "1 \<le> parallelSessions c" using validate_None by blast
  show ?thesis
  proof (cases "loadAccounts (accountsFile env)")
    case (Inl m)
    with None show ?thesis by (simp add: main_def)
  next
    case (Inr accs)
    let ?o = "Orchestrator accs (loadProxies (proxiesFile env)) c"
    have "1 \<le> parallelSessions (cfg ?o)" using ps by (simp add: Orchestrator_def)
    from run_total [OF this, of "firstRun env"] obtain err orc
      where run: "run (firstRun env) ?o = Some (err, orc)" and ran: "ran ?o (accounts ?o) err orc"
      by blast
    have "accounts ?o = accs" by (simp add: Orchestrator_def)
    with ran have "ran ?o accs err orc" by simp
    from ran_fresh [OF this] have "cfg orc = c" by blast
    with ps have psc: "1 \<le> parallelSessions (cfg orc)" by simp
    from retryFailed_returns [OF psc, of "retryRun env"]
    obtain e r orc' where "retryFailed (retryRun env) orc = Some (e, r, orc')"
      by blast
    with None Inr run show ?thesis
      by (cases err; cases e) (simp_all add: main_def)
  qed
qed

lemma success_positive:
  "0 < int (length (filter (\<lambda>r. r_status r = ''success'') rs))
     \<longleftrightarrow> (\<exists>r \<in> set rs. r_status r = ''success'')"
  by (auto simp: filter_empty_conv)

lemma exit_code_without_notifier:
  assumes m: "main c env = Some ex" and nt: "\<not> telegram c" and v: "validate c = None"
    and la: "loadAccounts (accountsFile env) = Inr (map Some accs)"
  shows "\<exists>orc. orchestrator_at_exit ex = Some orc \<and>
           exitCode ex =
             (if (\<exists>r \<in> set (results orc). r_status r = ''success'') \<or>
                 (\<exists>ro. retry_at_exit ex = Some ro \<and> (\<exists>r \<in> set (results ro). r_status r = ''success''))
              then 0 else 1)"
proof -
  have ps: "1 \<le> parallelSessions c" using validate_None [OF v] by simp
  have ne: "accs \<noteq> []" using la by (auto simp: loadAccounts_def split: option.splits if_splits)
  define prox where "prox = loadProxies (proxiesFile env)"
  let ?o = "Orchestrator (map Some accs) prox c"
  have "1 \<le> parallelSessions (cfg ?o)" using ps by (simp add: Orchestrator_def)
  from run_total [OF this, of "firstRun env"] obtain err orc1
    where run: "run (firstRun env) ?o = Some (err, orc1)" and ran: "ran ?o (map Some accs) err orc1"
    by (auto simp: Orchestrator_def)
  have nn: "None \<notin> set (map Some accs)" by auto
  from ran_fresh [OF ran] nt nn have err: "err = None" by blast
  note f = ran_fresh [OF ran [unfolded err]]
  from f have s1: "success (stats orc1) = int (length (filter (\<lambda>r. r_status r = ''success'') (results orc1)))"
    by blast
  have sp1: "0 < success (stats orc1) \<longleftrightarrow> (\<exists>r \<in> set (results orc1). r_status r = ''success'')"
    unfolding s1 by (rule success_positive)
  have mainval: "main c env =
      (if retryAttempts c > 0 \<and> errors (stats orc1) > 0 then
         (case retryFailed (retryRun env) orc1 of
            None \<Rightarrow> None
          | Some (Some m, r, orc') \<Rightarrow>
              Some \<lparr> exitCode = 1, fatal = Some m,
                     orchestrator_at_exit = Some orc', retry_at_exit = r \<rparr>
          | Some (None, r, orc') \<Rightarrow>
              Some \<lparr> exitCode = (if success (stats orc') > 0 then 0 else 1),
                     fatal = None,
                     orchestrator_at_exit = Some orc', retry_at_exit = r \<rparr>)
       else
         Some \<lparr> exitCode = (if success (stats orc1) > 0 then 0 else 1),
                fatal = None,
                orchestrator_at_exit = Some orc1, retry_at_exit = None \<rparr>)"
    using v la ne run err by (simp add: main_def prox_def)
  show ?thesis
  proof (cases "retryAttempts c > 0 \<and> errors (stats orc1) > 0")
    case False
    with mainval m have "orchestrator_at_exit ex = Some orc1" "retry_at_exit ex = None"
        "exitCode ex = (if success (stats orc1) > 0 then 0 else 1)"
      by auto
    then show ?thesis using sp1 by simp
  next
    case True
    from f have c1: "cfg orc1 = c" by blast
    with ps have psc: "1 \<le> parallelSessions (cfg orc1)" by simp
    from f have "accounts orc1 = map Some accs" by blast
    from failedAccounts_loaded [OF this] obtain retried
      where fa: "failedAccounts orc1 = Inr retried" by blast
    let ?ro = "Orchestrator (map Some retried) (proxies orc1) (cfg orc1)"
    consider (no_retry) "retryFailed (retryRun env) orc1 = Some (None, None, orc1)"
      | (threw) e r where "ran ?ro (map Some retried) (Some e) r"
      | (merged) r where "ran ?ro (map Some retried) None r"
          "retryFailed (retryRun env) orc1 = Some (None, Some r, mergeResults orc1 r)"
      by (rule retryFailed_total [OF psc fa, where w = "retryRun env"])
    then show ?thesis
    proof cases
      case no_retry
      with mainval True m have "orchestrator_at_exit ex = Some orc1" "retry_at_exit ex = None"
        "exitCode ex = (if success (stats orc1) > 0 then 0 else 1)"
        by auto
      then show ?thesis using sp1 by simp
    next
      case (threw e r)
      have "None \<notin> set (map Some retried)" by auto
      with ran_fresh [OF threw] nt c1 show ?thesis by simp
    next
      case (merged r)
      with mainval True m have ex: "orchestrator_at_exit ex = Some (mergeResults orc1 r)"
          "retry_at_exit ex = Some r"
          "exitCode ex = (if success (stats (mergeResults orc1 r)) > 0 then 0 else 1)"
        by auto
      from ran_fresh [OF merged(1)]
      have s2: "success (stats r) = int (length (filter (\<lambda>r. r_status r = ''success'') (results r)))"
        by blast
      have sp2: "0 < success (stats r) \<longleftrightarrow> (\<exists>x \<in> set (results r). r_status x = ''success'')"
        unfolding s2 by (rule success_positive)
      have nn: "0 \<le> success (stats orc1)" "0 \<le> success (stats r)"
        using s1 s2 by simp_all
      have "success (stats (mergeResults orc1 r)) = success (stats orc1) + success (stats r)"
        by (simp add: mergeResults_def)
      then have "success (stats (mergeResults orc1 r)) > 0 \<longleftrightarrow>
                   0 < success (stats orc1) \<or> 0 < success (stats r)"
        using nn by arith
      then have "success (stats (mergeResults orc1 r)) > 0 \<longleftrightarrow>
              (\<exists>x \<in> set (results orc1). r_status x = ''success'') \<or>
              (\<exists>x \<in> set (results r). r_status x = ''success'')"
        using sp1 sp2 by simp
      moreover have "results (mergeResults orc1 r) = results orc1" by (simp add: mergeResults_def)
      ultimately show ?thesis using ex by simp
    qed
  qed
qed

text \<open>
  C9.  The code at an input where the notifier is configured and rejects the batch status
  message (\<open>sendMessage\<close> rethrows): the only account books its appointment, the
  outcome is recorded with status \<open>success\<close>, the throw leaves \<open>run\<close> and reaches the
  \<open>catch\<close> of \<open>main\<close>, and the exit code is 1.
\<close>

theorem notifier_failure_exits_one:
  "map_option exitCode
     (main \<lparr> capsolverApiKey = ''key'', telegramBotToken = ''token'', telegramChatId = ''chat'',
             parallelSessions = 5, retryAttempts = 2 \<rparr>
           \<lparr> accountsFile = Some [Some \<lparr> username = Some ''u1'', email = Some ''u1@x'', consulate = None \<rparr>],
             proxiesFile = None,
             firstRun = \<lparr> sess = (\<lambda>b i. \<lparr> preBooking = None,
                                  pg = \<lparr> waitForSelector = None, matching = [''a.available''],
                                         timeSlots = 1, confirmButton = True,
                                         confirmationTexts = [] \<rparr>,
                                  duration = ''50s'', settles = True \<rparr>),
                          tgConnected = False, tgSessionStarted = None,
                          tgBatchStatus = (\<lambda>b. Some ''Request failed with status code 401'') \<rparr>,
             retryRun = \<lparr> sess = (\<lambda>b i. \<lparr> preBooking = None,
                                  pg = \<lparr> waitForSelector = None, matching = [''a.available''],
                                         timeSlots = 1, confirmButton = True,
                                         confirmationTexts = [] \<rparr>,
                                  duration = ''50s'', settles = True \<rparr>),
                          tgConnected = False, tgSessionStarted = None,
                          tgBatchStatus = (\<lambda>b. Some ''Request failed with status code 401'') \<rparr> \<rparr>)
     = Some 1
   \<and> map_option (map r_status \<circ> results) (Option.bind
     (main \<lparr> capsolverApiKey = ''key'', telegramBotToken = ''token'', telegramChatId = ''chat'',
             parallelSessions = 5, retryAttempts = 2 \<rparr>
           \<lparr> accountsFile = Some [Some \<lparr> username = Some ''u1'', email = Some ''u1@x'', consulate = None \<rparr>],
             proxiesFile = None,
             firstRun = \<lparr> sess = (\<lambda>b i. \<lparr> preBooking = None,
                                  pg = \<lparr> waitForSelector = None, matching = [''a.available''],
                                         timeSlots = 1, confirmButton = True,
                                         confirmationTexts = [] \<rparr>,
                                  duration = ''50s'', settles = True \<rparr>),
                          tgConnected = False, tgSessionStarted = None,
                          tgBatchStatus = (\<lambda>b. Some ''Request failed with status code 401'') \<rparr>,
             retryRun = \<lparr> sess = (\<lambda>b i. \<lparr> preBooking = None,
                                  pg = \<lparr> waitForSelector = None, matching = [''a.available''],
                                         timeSlots = 1, confirmButton = True,
                                         confirmationTexts = [] \<rparr>,
                                  duration = ''50s'', settles = True \<rparr>),
                          tgConnected = False, tgSessionStarted = None,
                          tgBatchStatus = (\<lambda>b. Some ''Request failed with status code 401'') \<rparr> \<rparr>)
     orchestrator_at_exit)
     = Some [''success'']"
  by code_simp

end
